theory Spec2Isabelle
  imports Complex_Main "HOL-Library.Multiset"
begin

section \<open>Numbers and vectors\<close>

text \<open>
  JavaScript numbers are modelled as real numbers, without rounding.  Where
  the source starts a running minimum at \<open>Infinity\<close> the model uses
  \<open>real option\<close> with \<open>None\<close> for \<open>Infinity\<close>.  The one division whose
  divisor can be zero, in \<open>Vector3.divideScalar\<close>, is modelled with the
  infinities and NaN that JavaScript returns there.

  \<open>THREE.Vector3\<close> is a class with three numeric fields.
\<close>

record vec3 =
  vx :: real
  vy :: real
  vz :: real

definition Vector3 :: "real \<Rightarrow> real \<Rightarrow> real \<Rightarrow> vec3" where
  "Vector3 a b c = \<lparr>vx = a, vy = b, vz = c\<rparr>"

text \<open>\<open>Vector3.distanceToSquared\<close>: \<open>dx*dx + dy*dy + dz*dz\<close>.\<close>

definition distanceToSquared :: "vec3 \<Rightarrow> vec3 \<Rightarrow> real" where
  "distanceToSquared a v =
     (let dx = vx a - vx v; dy = vy a - vy v; dz = vz a - vz v
      in dx * dx + dy * dy + dz * dz)"

section \<open>shatterMesh: the partition loop\<close>

text \<open>
  The non-indexed position array holds nine numbers per triangle; triangle \<open>i\<close>
  is read as the three vertices \<open>v1\<close>, \<open>v2\<close>, \<open>v3\<close> at offsets \<open>9 * i\<close>,
  \<open>9 * i + 3\<close> and \<open>9 * i + 6\<close>.  The mesh is the list of these triangles.
\<close>

type_synonym triangle = "vec3 \<times> vec3 \<times> vec3"

text \<open>The nine numbers \<open>positions[i9 + j]\<close>, \<open>j = 0..8\<close>, of one triangle.\<close>

fun coords :: "triangle \<Rightarrow> real list" where
  "coords (v1, v2, v3) =
     [vx v1, vy v1, vz v1, vx v2, vy v2, vz v2, vx v3, vy v3, vz v3]"

text \<open>\<open>triangleCentroid.set((v1.x + v2.x + v3.x) / 3, ...)\<close>\<close>

fun triangleCentroid :: "triangle \<Rightarrow> vec3" where
  "triangleCentroid (v1, v2, v3) =
     Vector3 ((vx v1 + vx v2 + vx v3) / 3)
             ((vy v1 + vy v2 + vy v3) / 3)
             ((vz v1 + vz v2 + vz v3) / 3)"

text \<open>\<open>distSq < minDist\<close> with \<open>minDist\<close> possibly still \<open>Infinity\<close>.\<close>

fun lessThanMin :: "real \<Rightarrow> real option \<Rightarrow> bool" where
  "lessThanMin d None = True"
| "lessThanMin d (Some m) = (d < m)"

text \<open>
  The inner loop \<open>for (let s = 0; s < fragmentCount; s++)\<close> over the seeds, with
  the loop variable \<open>s\<close> and the pair \<open>(closestSeedIndex, minDist)\<close> as state.
\<close>

fun seedScan :: "vec3 \<Rightarrow> vec3 list \<Rightarrow> nat \<Rightarrow> nat \<times> real option \<Rightarrow> nat \<times> real option" where
  "seedScan c [] s st = st"
| "seedScan c (p # ps) s (closestSeedIndex, minDist) =
     (let distSq = distanceToSquared c p
      in if lessThanMin distSq minDist
         then seedScan c ps (Suc s) (s, Some distSq)
         else seedScan c ps (Suc s) (closestSeedIndex, minDist))"

text \<open>\<open>let closestSeedIndex = 0; let minDist = Infinity;\<close> and then the scan.\<close>

definition closestSeed :: "vec3 list \<Rightarrow> triangle \<Rightarrow> nat" where
  "closestSeed seeds t = fst (seedScan (triangleCentroid t) seeds 0 (0, None))"

text \<open>One entry of the \<open>fragments\<close> array: \<open>{ positions: [], points: [] }\<close>.\<close>

record bucket =
  positions :: "real list"
  points :: "vec3 list"

definition emptyBucket :: bucket where
  "emptyBucket = \<lparr>positions = [], points = []\<rparr>"

text \<open>
  The two pushes at the end of the loop body: the nine numbers onto
  \<open>positions\<close>, the three vertices onto \<open>points\<close>.
\<close>

fun pushTriangle :: "bucket \<Rightarrow> triangle \<Rightarrow> bucket" where
  "pushTriangle b (v1, v2, v3) =
     \<lparr>positions = positions b @ coords (v1, v2, v3),
      points = points b @ [v1, v2, v3]\<rparr>"

datatype error = TypeError

text \<open>
  The outer loop over the triangles.  \<open>fragments[closestSeedIndex]\<close> is
  \<open>undefined\<close> when the index is not below the array's length, and reading
  \<open>.positions\<close> of it throws a TypeError.
\<close>

fun assignTriangles :: "triangle list \<Rightarrow> vec3 list \<Rightarrow> bucket list \<Rightarrow> error + bucket list" where
  "assignTriangles [] seeds fragments = Inr fragments"
| "assignTriangles (t # ts) seeds fragments =
     (let closestSeedIndex = closestSeed seeds t
      in if closestSeedIndex < length fragments
         then assignTriangles ts seeds
                (fragments[closestSeedIndex := pushTriangle (fragments ! closestSeedIndex) t])
         else Inl TypeError)"

text \<open>
  The seeds are \<open>fragmentCount\<close> random draws; \<open>seedAt i\<close> is the \<open>i\<close>-th
  draw.  \<open>Array.from({ length: fragmentCount }, ...)\<close> gives that many empty
  buckets.
\<close>

definition makeSeeds :: "nat \<Rightarrow> (nat \<Rightarrow> vec3) \<Rightarrow> vec3 list" where
  "makeSeeds fragmentCount seedAt = map seedAt [0..<fragmentCount]"

definition partition_mesh :: "triangle list \<Rightarrow> nat \<Rightarrow> (nat \<Rightarrow> vec3) \<Rightarrow> error + bucket list" where
  "partition_mesh tris fragmentCount seedAt =
     assignTriangles tris (makeSeeds fragmentCount seedAt)
       (replicate fragmentCount emptyBucket)"

text \<open>Reading a bucket's \<open>points\<close> back as triangles, three points at a time.\<close>

fun triples :: "'a list \<Rightarrow> ('a \<times> 'a \<times> 'a) list" where
  "triples (a # b # c # xs) = (a, b, c) # triples xs"
| "triples _ = []"

definition bucketTriangles :: "bucket \<Rightarrow> triangle list" where
  "bucketTriangles b = triples (points b)"


text \<open>The three vertices pushed onto \<open>points\<close> for one triangle.\<close>

fun triPoints :: "triangle \<Rightarrow> vec3 list" where
  "triPoints (v1, v2, v3) = [v1, v2, v3]"

text \<open>
  Loop invariant of the seed scan after the seeds \<open>pre\<close> have been visited:
  either nothing was visited and \<open>minDist\<close> is still \<open>Infinity\<close>, or the
  state holds the first index among \<open>pre\<close> of least squared distance.
\<close>

definition scanInv :: "vec3 \<Rightarrow> vec3 list \<Rightarrow> nat \<times> real option \<Rightarrow> bool" where
  "scanInv c pre st =
     (case snd st of
        None \<Rightarrow> pre = [] \<and> fst st = 0
      | Some m \<Rightarrow>
          fst st < length pre \<and> m = distanceToSquared c (pre ! fst st)
          \<and> (\<forall>j < length pre. m \<le> distanceToSquared c (pre ! j))
          \<and> (\<forall>j < fst st. m < distanceToSquared c (pre ! j)))"

section \<open>shatterMesh: building the fragments\<close>

subsection \<open>Vector and box operations of three.js used by the builder\<close>

definition vadd :: "vec3 \<Rightarrow> vec3 \<Rightarrow> vec3" where
  "vadd a v = Vector3 (vx a + vx v) (vy a + vy v) (vz a + vz v)"

definition vsub :: "vec3 \<Rightarrow> vec3 \<Rightarrow> vec3" where
  "vsub a v = Vector3 (vx a - vx v) (vy a - vy v) (vz a - vz v)"

definition multiplyScalar :: "vec3 \<Rightarrow> real \<Rightarrow> vec3" where
  "multiplyScalar v s = Vector3 (vx v * s) (vy v * s) (vz v * s)"

definition vlength :: "vec3 \<Rightarrow> real" where
  "vlength v = sqrt (vx v * vx v + vy v * vy v + vz v * vz v)"

text \<open>
  A JavaScript number that may be an infinity or NaN.  A division of finite
  numbers gives one: \<open>a / 0\<close> is \<open>Infinity\<close> or \<open>-Infinity\<close> by the sign
  of \<open>a\<close>, and \<open>0 / 0\<close> is \<open>NaN\<close>.  (The divisor zero is taken as \<open>+0\<close>,
  as \<open>Math.sqrt\<close> returns it.)
\<close>

datatype jsnum = Finite real | PosInfinity | NegInfinity | NaN

definition jsDivide :: "real \<Rightarrow> real \<Rightarrow> jsnum" where
  "jsDivide a b =
     (if b \<noteq> 0 then Finite (a / b)
      else if a = 0 then NaN
      else if 0 < a then PosInfinity else NegInfinity)"

text \<open>
  The product \<open>x * s\<close> of a finite \<open>x\<close> with such a number:
  \<open>0 * Infinity\<close> is \<open>NaN\<close>.
\<close>

fun jsTimes :: "real \<Rightarrow> jsnum \<Rightarrow> jsnum" where
  "jsTimes x (Finite s) = Finite (x * s)"
| "jsTimes x PosInfinity = (if x = 0 then NaN else if 0 < x then PosInfinity else NegInfinity)"
| "jsTimes x NegInfinity = (if x = 0 then NaN else if 0 < x then NegInfinity else PosInfinity)"
| "jsTimes x NaN = NaN"

text \<open>A \<open>Vector3\<close> whose fields may be infinite or NaN.\<close>

record jsvec3 =
  jx :: jsnum
  jy :: jsnum
  jz :: jsnum

text \<open>A vector of finite numbers, as such a \<open>Vector3\<close>.\<close>

definition jsVector :: "vec3 \<Rightarrow> jsvec3" where
  "jsVector v = \<lparr>jx = Finite (vx v), jy = Finite (vy v), jz = Finite (vz v)\<rparr>"

text \<open>The vector of finite numbers a \<open>Vector3\<close> holds, if its fields are all finite.\<close>

definition finiteVector :: "jsvec3 \<Rightarrow> vec3 option" where
  "finiteVector w =
     (case (jx w, jy w, jz w) of
        (Finite a, Finite b, Finite c) \<Rightarrow> Some (Vector3 a b c)
      | _ \<Rightarrow> None)"

text \<open>
  \<open>Vector3.divideScalar(s)\<close> is \<open>multiplyScalar(1 / s)\<close>: every field is
  multiplied by the quotient \<open>1 / s\<close>.
\<close>

definition divideScalar :: "vec3 \<Rightarrow> real \<Rightarrow> jsvec3" where
  "divideScalar v s =
     (let r = jsDivide 1 s
      in \<lparr>jx = jsTimes (vx v) r, jy = jsTimes (vy v) r, jz = jsTimes (vz v) r\<rparr>)"

text \<open>\<open>a || b\<close> on finite numbers: \<open>a\<close> unless it is \<open>0\<close>, then \<open>b\<close>.\<close>

definition orElse :: "real \<Rightarrow> real \<Rightarrow> real" where
  "orElse a b = (if a = 0 then b else a)"

text \<open>
  \<open>Vector3.normalize()\<close> of three.js is
  \<open>this.divideScalar(this.length() || 1)\<close>.  \<open>shatterMesh\<close> calls it on
  the difference of two centres and on the random axis, and has no test of
  its own for the zero vector.
\<close>

definition normalize :: "vec3 \<Rightarrow> jsvec3" where
  "normalize v = divideScalar v (orElse (vlength v) 1)"

text \<open>
  The records of the model hold vectors of finite numbers.  \<open>storedVector\<close>
  reads a \<open>Vector3\<close> as one; it says nothing of a \<open>Vector3\<close> with an
  infinite or NaN field.
\<close>

definition storedVector :: "jsvec3 \<Rightarrow> vec3" where
  "storedVector w = the (finiteVector w)"

text \<open>
  \<open>THREE.Box3\<close>.  An empty box (\<open>min = +Infinity\<close>, \<open>max = -Infinity\<close>) is
  \<open>None\<close>.
\<close>

record box3 =
  bmin :: vec3
  bmax :: vec3

definition expandByPoint :: "box3 option \<Rightarrow> vec3 \<Rightarrow> box3 option" where
  "expandByPoint b p =
     (case b of
        None \<Rightarrow> Some \<lparr>bmin = p, bmax = p\<rparr>
      | Some bx \<Rightarrow>
          Some \<lparr>bmin = Vector3 (min (vx (bmin bx)) (vx p)) (min (vy (bmin bx)) (vy p))
                              (min (vz (bmin bx)) (vz p)),
                bmax = Vector3 (max (vx (bmax bx)) (vx p)) (max (vy (bmax bx)) (vy p))
                              (max (vz (bmax bx)) (vz p))\<rparr>)"

text \<open>The vertices of a flat position array, three numbers each.\<close>

fun vertices :: "real list \<Rightarrow> vec3 list" where
  "vertices (a # b # c # xs) = Vector3 a b c # vertices xs"
| "vertices _ = []"

text \<open>\<open>computeBoundingBox\<close>: start from the empty box and expand by every vertex.\<close>

definition computeBoundingBox :: "real list \<Rightarrow> box3 option" where
  "computeBoundingBox ps = foldl expandByPoint None (vertices ps)"

text \<open>\<open>Box3.getCenter\<close>: the origin for an empty box, else \<open>(min + max) * 0.5\<close>.\<close>

definition getCenter :: "box3 option \<Rightarrow> vec3" where
  "getCenter b =
     (case b of
        None \<Rightarrow> Vector3 0 0 0
      | Some bx \<Rightarrow> multiplyScalar (vadd (bmin bx) (bmax bx)) (1 / 2))"

subsection \<open>Meshes and fragments\<close>

record euler =
  ex :: real
  ey :: real
  ez :: real
  order :: string

record quat =
  qx :: real
  qy :: real
  qz :: real
  qw :: real

definition Quaternion :: "real \<Rightarrow> real \<Rightarrow> real \<Rightarrow> real \<Rightarrow> quat" where
  "Quaternion a b c d = \<lparr>qx = a, qy = b, qz = c, qw = d\<rparr>"

text \<open>
  The mesh handed to \<open>shatterMesh\<close>: the triangles of its non-indexed
  geometry (\<open>None\<close> when the geometry has no position attribute) and its
  placement.
\<close>

record sourceMesh =
  positionAttr :: "triangle list option"
  src_position :: vec3
  src_rotation :: euler
  src_scale :: vec3

text \<open>
  A fragment's mesh.  An Object3D keeps its Euler rotation and its quaternion
  in step; the model stores the orientation once, as the quaternion.
\<close>

record fragmentMesh =
  geometry :: "real list"
  position :: vec3
  quaternion :: quat
  scale :: vec3

record fragmentData =
  mesh :: fragmentMesh
  centroid :: vec3
  direction :: vec3
  originalPosition :: vec3
  targetVolumePosition :: vec3
  originalRotation :: euler
  rotationAxis :: vec3

text \<open>
  What the code takes from outside its own text: the convex hull builder of
  three.js (\<open>None\<close> when \<open>new ConvexGeometry(points)\<close> throws), the
  conversion of Euler angles to a quaternion, and the random draws (seeds,
  target positions and spin axes, indexed by the bucket they are drawn for).
\<close>

record three =
  ConvexGeometry :: "vec3 list \<Rightarrow> real list option"
  setFromEuler :: "euler \<Rightarrow> quat"
  seedAt :: "nat \<Rightarrow> vec3"
  targetAt :: "nat \<Rightarrow> vec3"
  axisAt :: "nat \<Rightarrow> vec3"

text \<open>
  The geometry of a fragment: the hull when \<open>makeSolid\<close> is set and the hull
  builder returns, the bucket's own triangles otherwise (also in the
  \<open>catch\<close> branch).
\<close>

definition fragmentGeometry :: "three \<Rightarrow> bool \<Rightarrow> bucket \<Rightarrow> real list" where
  "fragmentGeometry lib makeSolid frag =
     (if makeSolid
      then (case ConvexGeometry lib (points frag) of
              Some solid \<Rightarrow> solid
            | None \<Rightarrow> positions frag)
      else positions frag)"

text \<open>
  The body of \<open>fragments.forEach\<close> for the bucket at index \<open>k\<close>; \<open>None\<close> is
  the early \<open>return\<close> that pushes nothing.
\<close>

definition buildFragment ::
  "three \<Rightarrow> sourceMesh \<Rightarrow> vec3 \<Rightarrow> box3 option \<Rightarrow> bool \<Rightarrow> nat \<Rightarrow> bucket \<Rightarrow> fragmentData option" where
  "buildFragment lib src meshCenter volumeBounds makeSolid k frag =
     (if length (points frag) < 4 then None
      else
        let fragGeo = fragmentGeometry lib makeSolid frag;
            fragmentMesh = \<lparr>geometry = fragGeo, position = src_position src,
                            quaternion = setFromEuler lib (src_rotation src),
                            scale = src_scale src\<rparr>;
            fragCentroid = getCenter (computeBoundingBox fragGeo);
            dir = storedVector (normalize (vsub fragCentroid meshCenter));
            targetPos = (case volumeBounds of
                           Some vb \<Rightarrow> targetAt lib k
                         | None \<Rightarrow> vadd (position fragmentMesh) (multiplyScalar dir 5))
        in Some \<lparr>mesh = fragmentMesh, centroid = fragCentroid, direction = dir,
                 originalPosition = position fragmentMesh,
                 targetVolumePosition = targetPos,
                 originalRotation = src_rotation src,
                 rotationAxis = storedVector (normalize (axisAt lib k))\<rparr>)"

text \<open>\<open>fragments.forEach\<close>: the buckets in order, \<open>results.push\<close> for each kept one.\<close>

fun buildAll ::
  "three \<Rightarrow> sourceMesh \<Rightarrow> vec3 \<Rightarrow> box3 option \<Rightarrow> bool \<Rightarrow> nat \<Rightarrow> bucket list \<Rightarrow> fragmentData list" where
  "buildAll lib src meshCenter volumeBounds makeSolid k [] = []"
| "buildAll lib src meshCenter volumeBounds makeSolid k (frag # rest) =
     (case buildFragment lib src meshCenter volumeBounds makeSolid k frag of
        None \<Rightarrow> buildAll lib src meshCenter volumeBounds makeSolid (Suc k) rest
      | Some f \<Rightarrow> f # buildAll lib src meshCenter volumeBounds makeSolid (Suc k) rest)"

definition shatterMesh ::
  "three \<Rightarrow> sourceMesh \<Rightarrow> nat \<Rightarrow> box3 option \<Rightarrow> bool \<Rightarrow> error + fragmentData list" where
  "shatterMesh lib src fragmentCount volumeBounds makeSolid =
     (case positionAttr src of
        None \<Rightarrow> Inr []
      | Some tris \<Rightarrow>
          let meshCenter = getCenter (computeBoundingBox (concat (map coords tris)))
          in (case partition_mesh tris fragmentCount (seedAt lib) of
                Inl e \<Rightarrow> Inl e
              | Inr fragments \<Rightarrow>
                  Inr (buildAll lib src meshCenter volumeBounds makeSolid 0 fragments)))"

section \<open>Viewer: updateTransformations\<close>

text \<open>\<open>Vector3.lerp(v, alpha)\<close>: \<open>this.x += (v.x - this.x) * alpha\<close>, and so on.\<close>

definition lerp :: "vec3 \<Rightarrow> vec3 \<Rightarrow> real \<Rightarrow> vec3" where
  "lerp a v alpha =
     Vector3 (vx a + (vx v - vx a) * alpha)
             (vy a + (vy v - vy a) * alpha)
             (vz a + (vz v - vz a) * alpha)"

text \<open>\<open>Quaternion.setFromAxisAngle(axis, angle)\<close>; the axis is taken as normalised.\<close>

definition setFromAxisAngle :: "vec3 \<Rightarrow> real \<Rightarrow> quat" where
  "setFromAxisAngle axis angle =
     (let halfAngle = angle / 2; s = sin halfAngle
      in Quaternion (vx axis * s) (vy axis * s) (vz axis * s) (cos halfAngle))"

text \<open>\<open>a.multiply(b)\<close> is \<open>multiplyQuaternions(a, b)\<close>.\<close>

definition multiplyQuaternions :: "quat \<Rightarrow> quat \<Rightarrow> quat" where
  "multiplyQuaternions a b =
     (let qax = qx a; qay = qy a; qaz = qz a; qaw = qw a;
          qbx = qx b; qby = qy b; qbz = qz b; qbw = qw b
      in Quaternion (qax * qbw + qaw * qbx + qay * qbz - qaz * qby)
                    (qay * qbw + qaw * qby + qaz * qbx - qax * qbz)
                    (qaz * qbw + qaw * qbz + qax * qby - qay * qbx)
                    (qaw * qbw - qax * qbx - qay * qby - qaz * qbz))"

text \<open>
  The body of \<open>fragmentsRef.current.forEach\<close>: the position and the
  quaternion of the fragment's mesh are overwritten.  \<open>useVolume\<close> is
  \<open>settings.current.useVolume\<close>.
\<close>

definition updateFragment :: "three \<Rightarrow> bool \<Rightarrow> real \<Rightarrow> real \<Rightarrow> fragmentData \<Rightarrow> fragmentData" where
  "updateFragment lib useVolume force rotForce f =
     (let pos = (if useVolume
                 then lerp (originalPosition f) (targetVolumePosition f) force
                 else vadd (originalPosition f) (multiplyScalar (direction f) (force * 12)));
          q = setFromAxisAngle (rotationAxis f) (force * 15 * rotForce);
          originalQuat = setFromEuler lib (originalRotation f)
      in f\<lparr>mesh := (mesh f)\<lparr>position := pos,
                               quaternion := multiplyQuaternions q originalQuat\<rparr>\<rparr>)"

definition updateTransformations ::
  "three \<Rightarrow> bool \<Rightarrow> real \<Rightarrow> real \<Rightarrow> fragmentData list \<Rightarrow> fragmentData list" where
  "updateTransformations lib useVolume force rotForce frags =
     map (updateFragment lib useVolume force rotForce) frags"

subsection \<open>The interpolation law as the specification words it\<close>

definition explosionScale :: real where
  "explosionScale = 12"

definition spinScale :: real where
  "spinScale = 15"

text \<open>Linear interpolation \<open>(1 - t) a + t b\<close>.\<close>

definition lerpSpec :: "vec3 \<Rightarrow> vec3 \<Rightarrow> real \<Rightarrow> vec3" where
  "lerpSpec a b t =
     Vector3 ((1 - t) * vx a + t * vx b) ((1 - t) * vy a + t * vy b) ((1 - t) * vz a + t * vz b)"

text \<open>The rotation by \<open>angle\<close> about a unit axis, as a quaternion.\<close>

definition rotationQuaternion :: "vec3 \<Rightarrow> real \<Rightarrow> quat" where
  "rotationQuaternion axis angle =
     Quaternion (sin (angle / 2) * vx axis) (sin (angle / 2) * vy axis)
                (sin (angle / 2) * vz axis) (cos (angle / 2))"

text \<open>
  The Hamilton product \<open>(w\<^sub>1 + v\<^sub>1)(w\<^sub>2 + v\<^sub>2) =
  (w\<^sub>1 w\<^sub>2 - v\<^sub>1 \<cdot> v\<^sub>2) + (w\<^sub>1 v\<^sub>2 + w\<^sub>2 v\<^sub>1 + v\<^sub>1 \<times> v\<^sub>2)\<close>.
\<close>

definition hamilton :: "quat \<Rightarrow> quat \<Rightarrow> quat" where
  "hamilton p q =
     Quaternion
       (qw p * qx q + qw q * qx p + (qy p * qz q - qz p * qy q))
       (qw p * qy q + qw q * qy p + (qz p * qx q - qx p * qz q))
       (qw p * qz q + qw q * qz p + (qx p * qy q - qy p * qx q))
       (qw p * qw q - (qx p * qx q + qy p * qy q + qz p * qz q))"

definition posedPosition :: "bool \<Rightarrow> real \<Rightarrow> fragmentData \<Rightarrow> vec3" where
  "posedPosition useVolume force f =
     (if useVolume
      then lerpSpec (originalPosition f) (targetVolumePosition f) force
      else vadd (originalPosition f) (multiplyScalar (direction f) (force * explosionScale)))"

definition posedRotation :: "three \<Rightarrow> real \<Rightarrow> real \<Rightarrow> fragmentData \<Rightarrow> quat" where
  "posedRotation lib force rotForce f =
     hamilton (rotationQuaternion (rotationAxis f) (force * spinScale * rotForce))
              (setFromEuler lib (originalRotation f))"

section \<open>Viewer: projected boxes\<close>

text \<open>
  The camera enters through \<open>c.project(camera)\<close> only; \<open>project\<close> is that
  map from a world point to normalised device coordinates.  The box is the
  fragment's world box, \<open>new THREE.Box3().setFromObject(f.mesh)\<close>.
\<close>

definition corners :: "box3 \<Rightarrow> vec3 list" where
  "corners box =
     [Vector3 (vx (bmin box)) (vy (bmin box)) (vz (bmin box)),
      Vector3 (vx (bmin box)) (vy (bmin box)) (vz (bmax box)),
      Vector3 (vx (bmin box)) (vy (bmax box)) (vz (bmin box)),
      Vector3 (vx (bmin box)) (vy (bmax box)) (vz (bmax box)),
      Vector3 (vx (bmax box)) (vy (bmin box)) (vz (bmin box)),
      Vector3 (vx (bmax box)) (vy (bmin box)) (vz (bmax box)),
      Vector3 (vx (bmax box)) (vy (bmax box)) (vz (bmin box)),
      Vector3 (vx (bmax box)) (vy (bmax box)) (vz (bmax box))]"

text \<open>
  One round of \<open>corners.forEach\<close> on the state \<open>(minX, minY, maxX, maxY)\<close>,
  which starts as \<open>(1, 1, -1, -1)\<close>.
\<close>

definition scanCorner ::
  "(vec3 \<Rightarrow> vec3) \<Rightarrow> real \<times> real \<times> real \<times> real \<Rightarrow> vec3 \<Rightarrow> real \<times> real \<times> real \<times> real" where
  "scanCorner project st c =
     (case st of (minX, minY, maxX, maxY) \<Rightarrow>
        let p = project c
        in (min minX (vx p), min minY (vy p), max maxX (vx p), max maxY (vy p)))"

definition cornerBounds :: "(vec3 \<Rightarrow> vec3) \<Rightarrow> box3 \<Rightarrow> real \<times> real \<times> real \<times> real" where
  "cornerBounds project box = foldl (scanCorner project) (1, 1, -1, -1) (corners box)"

text \<open>
  The annotation step of \<open>generateDataset\<close> for one fragment: the numbers
  \<open>(cx, cy, w, h)\<close> of the YOLO line, or \<open>None\<close> when no line is pushed.  The
  formatting of the line (\<open>toFixed(6)\<close>) is left out.
\<close>

definition datasetAnnotation :: "(vec3 \<Rightarrow> vec3) \<Rightarrow> box3 \<Rightarrow> (real \<times> real \<times> real \<times> real) option" where
  "datasetAnnotation project box =
     (case cornerBounds project box of (minX, minY, maxX, maxY) \<Rightarrow>
        if maxX > -1 \<and> minX < 1 \<and> maxY > -1 \<and> minY < 1
        then
          let normMinX = max 0 ((minX + 1) / 2);
              normMaxX = min 1 ((maxX + 1) / 2);
              normMinY = max 0 ((1 - maxY) / 2);
              normMaxY = min 1 ((1 - minY) / 2);
              w = normMaxX - normMinX;
              h = normMaxY - normMinY;
              cx = normMinX + w / 2;
              cy = normMinY + h / 2
          in Some (cx, cy, w, h)
        else None)"

text \<open>
  The body of the loop of \<open>calculate2DBboxes\<close> for one fragment, for a window
  of \<open>width\<close> by \<open>height\<close> pixels.  The label, with its random confidence,
  is left out.
\<close>

record box2D =
  box_left :: real
  box_top :: real
  box_width :: real
  box_height :: real

definition fragmentBox2D :: "(vec3 \<Rightarrow> vec3) \<Rightarrow> real \<Rightarrow> real \<Rightarrow> box3 \<Rightarrow> box2D option" where
  "fragmentBox2D project width height box =
     (let meshCenter = getCenter (Some box);
          screenPos = project meshCenter
      in if \<bar>vx screenPos\<bar> > 12 / 10 \<or> \<bar>vy screenPos\<bar> > 12 / 10 then None
         else
           (case cornerBounds project box of (minX, minY, maxX, maxY) \<Rightarrow>
              let left = (minX + 1) / 2 * width;
                  right = (maxX + 1) / 2 * width;
                  top = (1 - maxY) / 2 * height;
                  bottom = (1 - minY) / 2 * height
              in if right > 0 \<and> left < width \<and> bottom > 0 \<and> top < height
                 then Some \<lparr>box_left = left, box_top = top,
                            box_width = right - left, box_height = bottom - top\<rparr>
                 else None))"

subsection \<open>The rectangle of the eight projected corners\<close>

definition ndcXs :: "(vec3 \<Rightarrow> vec3) \<Rightarrow> box3 \<Rightarrow> real list" where
  "ndcXs project box = map (\<lambda>c. vx (project c)) (corners box)"

definition ndcYs :: "(vec3 \<Rightarrow> vec3) \<Rightarrow> box3 \<Rightarrow> real list" where
  "ndcYs project box = map (\<lambda>c. vy (project c)) (corners box)"

definition rectMinX :: "(vec3 \<Rightarrow> vec3) \<Rightarrow> box3 \<Rightarrow> real" where
  "rectMinX project box = Min (set (ndcXs project box))"

definition rectMaxX :: "(vec3 \<Rightarrow> vec3) \<Rightarrow> box3 \<Rightarrow> real" where
  "rectMaxX project box = Max (set (ndcXs project box))"

definition rectMinY :: "(vec3 \<Rightarrow> vec3) \<Rightarrow> box3 \<Rightarrow> real" where
  "rectMinY project box = Min (set (ndcYs project box))"

definition rectMaxY :: "(vec3 \<Rightarrow> vec3) \<Rightarrow> box3 \<Rightarrow> real" where
  "rectMaxY project box = Max (set (ndcYs project box))"

text \<open>
  Clipping an interval of device coordinates to \<open>[-1, 1]\<close> and mapping it to
  \<open>[0, 1]\<close>; the vertical axis is flipped.
\<close>

definition clipLo :: "real \<Rightarrow> real" where
  "clipLo a = (max (-1) a + 1) / 2"

definition clipHi :: "real \<Rightarrow> real" where
  "clipHi a = (min 1 a + 1) / 2"

definition clippedRecord :: "(vec3 \<Rightarrow> vec3) \<Rightarrow> box3 \<Rightarrow> real \<times> real \<times> real \<times> real" where
  "clippedRecord project box =
     (let l = clipLo (rectMinX project box); r = clipHi (rectMaxX project box);
          t = 1 - clipHi (rectMaxY project box); b = 1 - clipLo (rectMinY project box)
      in ((l + r) / 2, (t + b) / 2, r - l, b - t))"

text \<open>A pinhole camera at the origin looking down the negative z axis.\<close>

definition pinhole :: "vec3 \<Rightarrow> vec3" where
  "pinhole v = Vector3 (vx v / (- vz v)) (vy v / (- vz v)) 0"

section \<open>A small mesh used in the examples\<close>

text \<open>
  Two well separated triangles, the first of them present twice (as the two
  faces of a double-sided triangle are), and one seed at the centroid of each.
\<close>

definition exA :: triangle where
  "exA = (Vector3 0 0 0, Vector3 3 0 0, Vector3 0 3 0)"

definition exB :: triangle where
  "exB = (Vector3 10 0 0, Vector3 13 0 0, Vector3 10 3 0)"

definition exSeedAt :: "nat \<Rightarrow> vec3" where
  "exSeedAt i = (if i = 0 then Vector3 1 1 0 else Vector3 11 1 0)"

definition exDouble :: bucket where
  "exDouble = foldl pushTriangle emptyBucket [exA, exA]"

definition exSingle :: bucket where
  "exSingle = foldl pushTriangle emptyBucket [exB]"

definition exLib :: three where
  "exLib = \<lparr>ConvexGeometry = (\<lambda>ps. None),
            setFromEuler = (\<lambda>e. Quaternion 0 0 0 1),
            seedAt = exSeedAt,
            targetAt = (\<lambda>k. Vector3 0 0 0),
            axisAt = (\<lambda>k. Vector3 1 0 0)\<rparr>"

definition exSrc :: sourceMesh where
  "exSrc = \<lparr>positionAttr = Some [exA, exB, exA],
            src_position = Vector3 0 0 0,
            src_rotation = \<lparr>ex = 0, ey = 0, ez = 0, order = ''XYZ''\<rparr>,
            src_scale = Vector3 1 1 1\<rparr>"

definition exSrc1 :: sourceMesh where
  "exSrc1 = \<lparr>positionAttr = Some [exA, exA],
             src_position = Vector3 0 0 0,
             src_rotation = \<lparr>ex = 0, ey = 0, ez = 0, order = ''XYZ''\<rparr>,
             src_scale = Vector3 1 1 1\<rparr>"

text \<open>
  The fragment \<open>shatterMesh\<close> returns for the doubled triangle alone with
  one seed, in shell mode and, the hull builder failing, in solid mode.
\<close>

definition exFrag :: fragmentData where
  "exFrag = \<lparr>mesh = \<lparr>geometry = positions exDouble, position = Vector3 0 0 0,
                      quaternion = Quaternion 0 0 0 1, scale = Vector3 1 1 1\<rparr>,
              centroid = Vector3 (3 / 2) (3 / 2) 0,
              direction = Vector3 0 0 0,
              originalPosition = Vector3 0 0 0,
              targetVolumePosition = Vector3 0 0 0,
              originalRotation = \<lparr>ex = 0, ey = 0, ez = 0, order = ''XYZ''\<rparr>,
              rotationAxis = Vector3 1 0 0\<rparr>"

text \<open>A fragment at rest at \<open>(1, 2, 3)\<close> that moves along the x axis.\<close>

definition exMoving :: fragmentData where
  "exMoving = exFrag\<lparr>direction := Vector3 1 0 0,
                       originalPosition := Vector3 1 2 3,
                       targetVolumePosition := Vector3 3 2 3\<rparr>"

text \<open>
  World boxes in front of the pinhole camera: one straddling the left edge of
  the view, one wholly to the right of it, and a wide one whose centre lies
  far to the right while its near end is in view.
\<close>

definition exBox :: box3 where
  "exBox = \<lparr>bmin = Vector3 (-3) (-1) (-3), bmax = Vector3 1 1 (-2)\<rparr>"

definition exBoxOut :: box3 where
  "exBoxOut = \<lparr>bmin = Vector3 5 (-1) (-3), bmax = Vector3 6 1 (-2)\<rparr>"

definition exBoxFar :: box3 where
  "exBoxFar = \<lparr>bmin = Vector3 0 (-1) (-3), bmax = Vector3 10 1 (-2)\<rparr>"

section \<open>The seed scan finds the first nearest seed\<close>

lemma scanInv_step:
  assumes "scanInv c pre (b, md)"
  shows "scanInv c (pre @ [p])
           (if lessThanMin (distanceToSquared c p) md
            then (length pre, Some (distanceToSquared c p)) else (b, md))"
proof (cases md)
  case None
  with assms show ?thesis by (simp add: scanInv_def)
next
  case (Some m)
  with assms show ?thesis
    by (auto simp: scanInv_def nth_append less_Suc_eq)
qed

lemma seedScan_inv:
  "scanInv c pre st \<Longrightarrow> s = length pre \<Longrightarrow> scanInv c (pre @ ps) (seedScan c ps s st)"
proof (induction ps arbitrary: pre st s)
  case Nil
  then show ?case by simp
next
  case (Cons p ps)
  obtain b md where st: "st = (b, md)" by (cases st)
  let ?st' = "if lessThanMin (distanceToSquared c p) md
              then (length pre, Some (distanceToSquared c p)) else (b, md)"
  have step: "scanInv c (pre @ [p]) ?st'"
    using scanInv_step Cons.prems(1) st by simp
  have "seedScan c (p # ps) s st = seedScan c ps (Suc s) ?st'"
    using st Cons.prems(2) by (simp add: Let_def)
  moreover have "scanInv c ((pre @ [p]) @ ps) (seedScan c ps (Suc s) ?st')"
    by (rule Cons.IH[OF step]) (simp add: Cons.prems(2))
  ultimately show ?case by simp
qed

lemma closestSeed_argmin:
  assumes "seeds \<noteq> []"
  shows "closestSeed seeds t < length seeds"
    and "j < length seeds \<Longrightarrow>
           distanceToSquared (triangleCentroid t) (seeds ! closestSeed seeds t)
             \<le> distanceToSquared (triangleCentroid t) (seeds ! j)"
    and "j < closestSeed seeds t \<Longrightarrow>
           distanceToSquared (triangleCentroid t) (seeds ! closestSeed seeds t)
             < distanceToSquared (triangleCentroid t) (seeds ! j)"
proof -
  let ?c = "triangleCentroid t"
  have "scanInv ?c [] (0, None)" by (simp add: scanInv_def)
  from seedScan_inv[OF this, of 0 seeds]
  have inv: "scanInv ?c seeds (seedScan ?c seeds 0 (0, None))" by simp
  obtain b md where r: "seedScan ?c seeds 0 (0, None) = (b, md)" by force
  with inv assms obtain m where m: "md = Some m" by (cases md) (auto simp: scanInv_def)
  have b: "closestSeed seeds t = b" by (simp add: closestSeed_def r)
  from inv r m show "closestSeed seeds t < length seeds" by (simp add: scanInv_def b)
  from inv r m show "j < length seeds \<Longrightarrow>
           distanceToSquared ?c (seeds ! closestSeed seeds t) \<le> distanceToSquared ?c (seeds ! j)"
    by (auto simp: scanInv_def b)
  from inv r m show "j < closestSeed seeds t \<Longrightarrow>
           distanceToSquared ?c (seeds ! closestSeed seeds t) < distanceToSquared ?c (seeds ! j)"
    by (auto simp: scanInv_def b)
qed

section \<open>The partition loop\<close>

lemma triples_concat: "triples (concat (map triPoints ts)) = ts"
  by (induction ts) auto

lemma points_foldl_push:
  "points (foldl pushTriangle b ts) = points b @ concat (map triPoints ts)"
  by (induction ts arbitrary: b) auto

lemma positions_foldl_push:
  "positions (foldl pushTriangle b ts) = positions b @ concat (map coords ts)"
  by (induction ts arbitrary: b) auto

lemma bucketTriangles_foldl:
  "bucketTriangles (foldl pushTriangle emptyBucket ts) = ts"
  by (simp add: bucketTriangles_def points_foldl_push emptyBucket_def triples_concat)

lemma length_concat_triPoints: "length (concat (map triPoints ts)) = 3 * length ts"
  by (induction ts) auto

text \<open>
  After the loop, bucket \<open>k\<close> holds, in mesh order, the triangles whose
  nearest seed is \<open>k\<close>, pushed onto what it held before.
\<close>

lemma assignTriangles_char:
  assumes "seeds \<noteq> []"
  shows "length fragments = length seeds \<Longrightarrow>
         assignTriangles ts seeds fragments =
           Inr (map (\<lambda>k. foldl pushTriangle (fragments ! k)
                             (filter (\<lambda>t. closestSeed seeds t = k) ts))
                    [0..<length fragments])"
proof (induction ts arbitrary: fragments)
  case Nil
  show ?case using map_nth[of fragments] by simp
next
  case (Cons t ts)
  let ?k = "closestSeed seeds t"
  let ?fr = "fragments[?k := pushTriangle (fragments ! ?k) t]"
  have k: "?k < length fragments"
    using closestSeed_argmin(1)[OF assms] Cons.prems by simp
  have len: "length ?fr = length seeds" using Cons.prems by simp
  have "assignTriangles (t # ts) seeds fragments = assignTriangles ts seeds ?fr"
    using k by (simp add: Let_def)
  also have "\<dots> = Inr (map (\<lambda>k. foldl pushTriangle (?fr ! k)
                             (filter (\<lambda>t. closestSeed seeds t = k) ts)) [0..<length ?fr])"
    by (rule Cons.IH[OF len])
  also have "map (\<lambda>k. foldl pushTriangle (?fr ! k)
                             (filter (\<lambda>t. closestSeed seeds t = k) ts)) [0..<length ?fr]
           = map (\<lambda>k. foldl pushTriangle (fragments ! k)
                             (filter (\<lambda>t. closestSeed seeds t = k) (t # ts))) [0..<length fragments]"
    using k by (auto simp: nth_list_update)
  finally show ?case .
qed

lemma partition_mesh_char:
  assumes "1 \<le> fragmentCount"
  shows "partition_mesh tris fragmentCount sd =
           Inr (map (\<lambda>k. foldl pushTriangle emptyBucket
                            (filter (\<lambda>t. closestSeed (makeSeeds fragmentCount sd) t = k) tris))
                    [0..<fragmentCount])"
proof -
  let ?seeds = "makeSeeds fragmentCount sd"
  have ne: "?seeds \<noteq> []" and len: "length ?seeds = fragmentCount"
    using assms by (auto simp: makeSeeds_def)
  have "partition_mesh tris fragmentCount sd
          = Inr (map (\<lambda>k. foldl pushTriangle (replicate fragmentCount emptyBucket ! k)
                             (filter (\<lambda>t. closestSeed ?seeds t = k) tris)) [0..<fragmentCount])"
    unfolding partition_mesh_def
    using assignTriangles_char[OF ne, of "replicate fragmentCount emptyBucket" tris] len
    by simp
  then show ?thesis by simp
qed

lemma mset_filter_split:
  "mset (filter (\<lambda>t. f t < n) ts) + mset (filter (\<lambda>t. f t = n) ts)
     = mset (filter (\<lambda>t. f t < Suc n) ts)"
  by (induction ts) (auto simp: less_Suc_eq)

lemma mset_concat_filter_below:
  "mset (concat (map (\<lambda>k. filter (\<lambda>t. f t = k) ts) [0..<n]))
     = mset (filter (\<lambda>t. (f t :: nat) < n) ts)"
proof (induction n)
  case 0
  show ?case by simp
next
  case (Suc n)
  then show ?case using mset_filter_split[of f n ts] by simp
qed

lemma mset_concat_filter:
  assumes "\<forall>t \<in> set ts. (f t :: nat) < n"
  shows "mset (concat (map (\<lambda>k. filter (\<lambda>t. f t = k) ts) [0..<n])) = mset ts"
proof -
  have "filter (\<lambda>t. f t < n) ts = ts" using assms by (simp add: filter_id_conv)
  then show ?thesis by (simp add: mset_concat_filter_below)
qed

lemma ex_closest:
  "closestSeed (makeSeeds (Suc (Suc 0)) exSeedAt) exA = 0"
  "closestSeed (makeSeeds (Suc (Suc 0)) exSeedAt) exB = 1"
  by (simp_all add: closestSeed_def makeSeeds_def exSeedAt_def exA_def exB_def
      distanceToSquared_def Vector3_def Let_def)

lemma ex_partition:
  "partition_mesh [exA, exB, exA] 2 exSeedAt = Inr [exDouble, exSingle]"
  by (simp add: partition_mesh_def ex_closest Let_def numeral_2_eq_2 exDouble_def exSingle_def)

text \<open>
  C1 (partition coverage).  For every mesh and every \<open>fragmentCount \<ge> 1\<close> the
  partition loop returns \<open>fragmentCount\<close> buckets, and the triangles of all
  buckets together are the triangles of the mesh, each as often as the mesh
  has it: none is dropped and none is duplicated.
\<close>

theorem partition_coverage:
  assumes "1 \<le> fragmentCount"
  shows "\<exists>buckets. partition_mesh tris fragmentCount sd = Inr buckets
           \<and> length buckets = fragmentCount
           \<and> mset (concat (map bucketTriangles buckets)) = mset tris"
proof -
  let ?seeds = "makeSeeds fragmentCount sd"
  let ?bs = "map (\<lambda>k. foldl pushTriangle emptyBucket
                        (filter (\<lambda>t. closestSeed ?seeds t = k) tris)) [0..<fragmentCount]"
  have ne: "?seeds \<noteq> []" and len: "length ?seeds = fragmentCount"
    using assms by (auto simp: makeSeeds_def)
  have eq: "partition_mesh tris fragmentCount sd = Inr ?bs"
    by (rule partition_mesh_char[OF assms])
  have m: "map bucketTriangles ?bs
             = map (\<lambda>k. filter (\<lambda>t. closestSeed ?seeds t = k) tris) [0..<fragmentCount]"
    by (simp add: bucketTriangles_foldl)
  have "\<forall>t \<in> set tris. closestSeed ?seeds t < fragmentCount"
    using closestSeed_argmin(1)[OF ne] len by simp
  then have "mset (concat (map bucketTriangles ?bs)) = mset tris"
    unfolding m by (rule mset_concat_filter)
  with eq show ?thesis by simp
qed

theorem partition_coverage_witness:
  "partition_mesh [exA, exB, exA] 2 exSeedAt = Inr [exDouble, exSingle]
   \<and> mset (concat (map bucketTriangles [exDouble, exSingle])) = mset [exA, exB, exA]"
proof -
  have "(1::nat) \<le> 2" by simp
  from partition_coverage[OF this, of "[exA, exB, exA]" exSeedAt]
  obtain buckets where "partition_mesh [exA, exB, exA] 2 exSeedAt = Inr buckets"
    and "mset (concat (map bucketTriangles buckets)) = mset [exA, exB, exA]"
    by blast
  then show ?thesis by (simp add: ex_partition)
qed

text \<open>
  C2 (nearest seed).  Every triangle of the mesh lies in the bucket of a seed
  \<open>k\<close> whose squared distance to the triangle's centroid is least among all
  seeds and strictly less than that of every seed of lower index, and in no
  other bucket; the centroid is the average of the three vertices.
\<close>

theorem nearest_seed:
  assumes "1 \<le> fragmentCount"
    and "partition_mesh tris fragmentCount sd = Inr buckets"
    and "t \<in> set tris"
  shows "\<exists>k<fragmentCount.
           t \<in> set (bucketTriangles (buckets ! k))
           \<and> (\<forall>j<fragmentCount. distanceToSquared (triangleCentroid t) (sd k)
                                  \<le> distanceToSquared (triangleCentroid t) (sd j))
           \<and> (\<forall>j<k. distanceToSquared (triangleCentroid t) (sd k)
                       < distanceToSquared (triangleCentroid t) (sd j))
           \<and> (\<forall>i<fragmentCount. t \<in> set (bucketTriangles (buckets ! i)) \<longrightarrow> i = k)
           \<and> triangleCentroid t =
               multiplyScalar (vadd (vadd (fst t) (fst (snd t))) (snd (snd t))) (1 / 3)"
proof -
  let ?seeds = "makeSeeds fragmentCount sd"
  let ?k = "closestSeed ?seeds t"
  have ne: "?seeds \<noteq> []" and len: "length ?seeds = fragmentCount"
    using assms(1) by (auto simp: makeSeeds_def)
  have nth: "\<And>j. j < fragmentCount \<Longrightarrow> ?seeds ! j = sd j"
    by (simp add: makeSeeds_def)
  have bs: "buckets = map (\<lambda>k. foldl pushTriangle emptyBucket
                        (filter (\<lambda>t. closestSeed ?seeds t = k) tris)) [0..<fragmentCount]"
    using partition_mesh_char[OF assms(1), of tris sd] assms(2) by simp
  have bt: "\<And>i. i < fragmentCount \<Longrightarrow>
              bucketTriangles (buckets ! i) = filter (\<lambda>t. closestSeed ?seeds t = i) tris"
    by (simp add: bs bucketTriangles_foldl)
  have k: "?k < fragmentCount" using closestSeed_argmin(1)[OF ne, of t] len by simp
  have "t \<in> set (bucketTriangles (buckets ! ?k))"
    using assms(3) k by (simp add: bt)
  moreover have "\<forall>j<fragmentCount. distanceToSquared (triangleCentroid t) (sd ?k)
                                  \<le> distanceToSquared (triangleCentroid t) (sd j)"
    using closestSeed_argmin(2)[OF ne, of _ t] k by (simp add: len nth)
  moreover have "\<forall>j< ?k. distanceToSquared (triangleCentroid t) (sd ?k)
                       < distanceToSquared (triangleCentroid t) (sd j)"
    using closestSeed_argmin(3)[OF ne, of _ t] k by (simp add: nth)
  moreover have "\<forall>i<fragmentCount. t \<in> set (bucketTriangles (buckets ! i)) \<longrightarrow> i = ?k"
    by (auto simp: bt)
  moreover have "triangleCentroid t =
               multiplyScalar (vadd (vadd (fst t) (fst (snd t))) (snd (snd t))) (1 / 3)"
    by (cases t) (simp add: multiplyScalar_def vadd_def Vector3_def)
  ultimately show ?thesis using k by blast
qed

theorem nearest_seed_witness:
  "\<exists>k<2. exB \<in> set (bucketTriangles ([exDouble, exSingle] ! k))
     \<and> (\<forall>j<2. distanceToSquared (triangleCentroid exB) (exSeedAt k)
                 \<le> distanceToSquared (triangleCentroid exB) (exSeedAt j))"
proof -
  have "(1::nat) \<le> 2" and "exB \<in> set [exA, exB, exA]" by simp_all
  from nearest_seed[OF this(1) ex_partition this(2)] show ?thesis by blast
qed


section \<open>The fragment builder\<close>

lemma buildFragment_None_iff:
  "(buildFragment lib src c vb solid k frag = None) = (length (points frag) < 4)"
  by (simp add: buildFragment_def Let_def)

lemma buildFragment_SomeD:
  assumes "buildFragment lib src c vb solid k frag = Some f"
  shows "4 \<le> length (points frag)"
    and "geometry (mesh f) = fragmentGeometry lib solid frag"
    and "centroid f = getCenter (computeBoundingBox (geometry (mesh f)))"
    and "direction f = storedVector (normalize (vsub (centroid f) c))"
  using assms by (auto simp: buildFragment_def Let_def split: if_splits)

lemma buildAll_length:
  "length (buildAll lib src c vb solid k bs) = length (filter (\<lambda>b. 4 \<le> length (points b)) bs)"
proof (induction bs arbitrary: k)
  case Nil
  show ?case by simp
next
  case (Cons b bs)
  show ?case
  proof (cases "buildFragment lib src c vb solid k b")
    case None
    then have "length (points b) < 4" by (simp add: buildFragment_None_iff)
    with None Cons.IH show ?thesis by simp
  next
    case (Some f)
    then have "4 \<le> length (points b)" by (rule buildFragment_SomeD(1))
    with Some Cons.IH show ?thesis by simp
  qed
qed

lemma buildAll_mem:
  "i < length bs \<Longrightarrow> buildFragment lib src c vb solid (k + i) (bs ! i) = Some f
     \<Longrightarrow> f \<in> set (buildAll lib src c vb solid k bs)"
proof (induction bs arbitrary: k i)
  case Nil
  then show ?case by simp
next
  case (Cons b bs)
  show ?case
  proof (cases i)
    case 0
    with Cons.prems show ?thesis by simp
  next
    case (Suc i')
    with Cons.prems have "f \<in> set (buildAll lib src c vb solid (Suc k) bs)"
      using Cons.IH[of i' "Suc k"] by simp
    then show ?thesis by (simp split: option.split)
  qed
qed

lemma buildAll_memD:
  "f \<in> set (buildAll lib src c vb solid k bs) \<Longrightarrow>
     \<exists>i<length bs. buildFragment lib src c vb solid (k + i) (bs ! i) = Some f"
proof (induction bs arbitrary: k)
  case Nil
  then show ?case by simp
next
  case (Cons b bs)
  show ?case
  proof (cases "buildFragment lib src c vb solid k b = Some f")
    case True
    then have "buildFragment lib src c vb solid (k + 0) ((b # bs) ! 0) = Some f" by simp
    then show ?thesis by blast
  next
    case False
    with Cons.prems have "f \<in> set (buildAll lib src c vb solid (Suc k) bs)"
      by (auto split: option.splits)
    from Cons.IH[OF this] obtain i where "i < length bs"
      and "buildFragment lib src c vb solid (Suc k + i) (bs ! i) = Some f" by blast
    then have "Suc i < length (b # bs)"
      and "buildFragment lib src c vb solid (k + Suc i) ((b # bs) ! Suc i) = Some f" by simp_all
    then show ?thesis by blast
  qed
qed

lemma assignTriangles_length:
  "assignTriangles ts seeds fr = Inr bs \<Longrightarrow> length bs = length fr"
  by (induction ts arbitrary: fr) (auto simp: Let_def split: if_splits)

lemma partition_mesh_length:
  "partition_mesh tris n sd = Inr bs \<Longrightarrow> length bs = n"
  by (simp add: partition_mesh_def assignTriangles_length)

lemma vlength_zero_iff: "(vlength v = 0) = (v = Vector3 0 0 0)"
proof -
  have "(vx v * vx v + vy v * vy v + vz v * vz v = 0) = (vx v = 0 \<and> vy v = 0 \<and> vz v = 0)"
    by (metis add_nonneg_eq_0_iff mult_eq_0_iff zero_le_square add_nonneg_nonneg)
  then show ?thesis by (auto simp: vlength_def Vector3_def)
qed

lemma finiteVector_jsVector: "finiteVector (jsVector v) = Some v"
  by (simp add: finiteVector_def jsVector_def Vector3_def)

lemma storedVector_jsVector: "storedVector (jsVector v) = v"
  by (simp add: storedVector_def finiteVector_jsVector)

lemma divideScalar_nonzero:
  "s \<noteq> 0 \<Longrightarrow> divideScalar v s = jsVector (multiplyScalar v (1 / s))"
  by (simp add: divideScalar_def jsDivide_def jsVector_def multiplyScalar_def Vector3_def)

text \<open>Dividing the zero vector by its length gives NaN in every field.\<close>

lemma divideScalar_zero_by_zero:
  "divideScalar (Vector3 0 0 0) (vlength (Vector3 0 0 0)) = \<lparr>jx = NaN, jy = NaN, jz = NaN\<rparr>"
  by (simp add: divideScalar_def jsDivide_def vlength_def Vector3_def)

lemma normalize_zero: "normalize (Vector3 0 0 0) = jsVector (Vector3 0 0 0)"
proof -
  have "orElse (vlength (Vector3 0 0 0)) 1 = 1"
    by (simp add: orElse_def vlength_def Vector3_def)
  then show ?thesis
    by (simp add: normalize_def divideScalar_nonzero multiplyScalar_def Vector3_def)
qed

lemma normalize_nonzero:
  assumes "v \<noteq> Vector3 0 0 0"
  shows "normalize v = jsVector (multiplyScalar v (1 / vlength v))"
proof -
  have l0: "vlength v \<noteq> 0" using assms by (simp add: vlength_zero_iff)
  then have "orElse (vlength v) 1 = vlength v" by (simp add: orElse_def)
  then show ?thesis using l0 by (simp add: normalize_def divideScalar_nonzero)
qed

lemma vlength_unit:
  assumes "v \<noteq> Vector3 0 0 0"
  shows "vlength (multiplyScalar v (1 / vlength v)) = 1"
proof -
  let ?l = "vlength v"
  let ?s = "vx v * vx v + vy v * vy v + vz v * vz v"
  have l0: "?l \<noteq> 0" using assms by (simp add: vlength_zero_iff)
  have s0: "0 \<le> ?s" by simp
  have l2: "?l * ?l = ?s" using s0 by (simp add: vlength_def)
  have "vlength (multiplyScalar v (1 / ?l))
       = sqrt (vx v * (1 / ?l) * (vx v * (1 / ?l)) + vy v * (1 / ?l) * (vy v * (1 / ?l))
               + vz v * (1 / ?l) * (vz v * (1 / ?l)))"
    by (simp add: vlength_def multiplyScalar_def Vector3_def)
  also have "vx v * (1 / ?l) * (vx v * (1 / ?l)) + vy v * (1 / ?l) * (vy v * (1 / ?l))
               + vz v * (1 / ?l) * (vz v * (1 / ?l)) = ?s / (?l * ?l)"
    by (simp add: add_divide_distrib)
  also have "?s / (?l * ?l) = (?l * ?l) / (?l * ?l)" by (simp only: l2)
  also have "(?l * ?l) / (?l * ?l) = 1" using l0 by simp
  finally show ?thesis by simp
qed

text \<open>With the guard, the result of \<open>normalize\<close> has finite fields for every vector.\<close>

lemma normalize_stored: "normalize v = jsVector (storedVector (normalize v))"
proof (cases "v = Vector3 0 0 0")
  case True
  then show ?thesis by (simp add: normalize_zero storedVector_jsVector)
next
  case False
  then show ?thesis by (simp add: normalize_nonzero storedVector_jsVector)
qed

lemma vsub_self_iff: "(vsub a b = Vector3 0 0 0) = (a = b)"
  by (auto simp: vsub_def Vector3_def)

text \<open>
  C8 (explosion direction).  For every fragment \<open>shatterMesh\<close> returns, the
  call \<open>normalize()\<close> on the difference of the fragment's centroid (the
  centre of its own bounding box) and the centre of the mesh returns the
  stored direction, a vector whose fields are all finite numbers, none of
  them an infinity or NaN.  When the centroid coincides with the mesh centre
  the stored direction is the zero vector, and otherwise it has length one.
\<close>

theorem explosion_direction:
  assumes "positionAttr src = Some tris"
    and "shatterMesh lib src fragmentCount vb solid = Inr frs"
    and "f \<in> set frs"
    and "meshCenter = getCenter (computeBoundingBox (concat (map coords tris)))"
  shows "normalize (vsub (centroid f) meshCenter) = jsVector (direction f)
       \<and> centroid f = getCenter (computeBoundingBox (geometry (mesh f)))
       \<and> (centroid f = meshCenter \<longrightarrow> direction f = Vector3 0 0 0)
       \<and> (centroid f \<noteq> meshCenter \<longrightarrow> vlength (direction f) = 1)"
proof -
  from assms(1,2) obtain bs where
    frs: "frs = buildAll lib src meshCenter vb solid 0 bs"
    by (auto simp: shatterMesh_def Let_def assms(4) split: sum.splits)
  with assms(3) obtain i where "buildFragment lib src meshCenter vb solid (0 + i) (bs ! i) = Some f"
    using buildAll_memD by blast
  note b = buildFragment_SomeD[OF this]
  let ?d = "vsub (centroid f) meshCenter"
  have d: "direction f = storedVector (normalize ?d)" by (rule b(4))
  have n: "normalize ?d = jsVector (direction f)"
    unfolding d by (rule normalize_stored)
  have z: "centroid f = meshCenter \<longrightarrow> direction f = Vector3 0 0 0"
  proof
    assume "centroid f = meshCenter"
    then have "?d = Vector3 0 0 0" by (simp add: vsub_self_iff)
    then show "direction f = Vector3 0 0 0"
      by (simp add: d normalize_zero storedVector_jsVector)
  qed
  have u: "centroid f \<noteq> meshCenter \<longrightarrow> vlength (direction f) = 1"
  proof
    assume "centroid f \<noteq> meshCenter"
    then have nz: "?d \<noteq> Vector3 0 0 0" by (simp add: vsub_self_iff)
    then have "direction f = multiplyScalar ?d (1 / vlength ?d)"
      by (simp add: d normalize_nonzero storedVector_jsVector)
    then show "vlength (direction f) = 1" using vlength_unit[OF nz] by simp
  qed
  from n b(3) z u show ?thesis by blast
qed

lemma ex_partition1: "partition_mesh [exA, exA] 1 exSeedAt = Inr [exDouble]"
  by (simp add: partition_mesh_def makeSeeds_def closestSeed_def exSeedAt_def exA_def
      distanceToSquared_def Vector3_def Let_def exDouble_def)

lemma ex_center1:
  "getCenter (computeBoundingBox (concat (map coords [exA, exA]))) = Vector3 (3 / 2) (3 / 2) 0"
  by (simp add: getCenter_def computeBoundingBox_def expandByPoint_def exA_def Vector3_def
      multiplyScalar_def vadd_def)

lemma ex_positions: "positions exDouble = concat (map coords [exA, exA])"
  unfolding exDouble_def positions_foldl_push by (simp add: emptyBucket_def)

lemma shatterMesh_Some:
  assumes "positionAttr src = Some tris"
    and "partition_mesh tris n (seedAt lib) = Inr bs"
  shows "shatterMesh lib src n vb solid =
           Inr (buildAll lib src (getCenter (computeBoundingBox (concat (map coords tris))))
                  vb solid 0 bs)"
  using assms by (simp add: shatterMesh_def Let_def)

lemma ex_build1:
  "buildFragment exLib exSrc1 (Vector3 (3 / 2) (3 / 2) 0) None False 0 exDouble = Some exFrag"
proof -
  have "length (points exDouble) = 6"
    unfolding exDouble_def points_foldl_push by (simp add: emptyBucket_def exA_def)
  moreover have "getCenter (computeBoundingBox (positions exDouble)) = Vector3 (3 / 2) (3 / 2) 0"
    by (simp only: ex_positions ex_center1)
  moreover have "vlength (Vector3 1 0 0) = 1"
    by (simp add: vlength_def Vector3_def)
  then have "storedVector (normalize (Vector3 1 0 0)) = Vector3 1 0 0"
    by (simp add: normalize_def orElse_def divideScalar_nonzero storedVector_jsVector
        multiplyScalar_def Vector3_def)
  moreover have "storedVector (normalize (vsub (Vector3 (3 / 2) (3 / 2) 0) (Vector3 (3 / 2) (3 / 2) 0)))
                   = Vector3 0 0 0"
    using vsub_self_iff[of "Vector3 (3 / 2) (3 / 2) 0" "Vector3 (3 / 2) (3 / 2) 0"]
    by (simp add: normalize_zero storedVector_jsVector)
  moreover have "vadd (Vector3 0 0 0) (multiplyScalar (Vector3 0 0 0) 5) = Vector3 0 0 0"
    by (simp add: vadd_def multiplyScalar_def Vector3_def)
  ultimately show ?thesis
    by (simp add: buildFragment_def fragmentGeometry_def Let_def exFrag_def exLib_def exSrc1_def)
qed

lemma ex_shatter1: "shatterMesh exLib exSrc1 1 None False = Inr [exFrag]"
proof -
  have a: "positionAttr exSrc1 = Some [exA, exA]" by (simp add: exSrc1_def)
  have b: "partition_mesh [exA, exA] 1 (seedAt exLib) = Inr [exDouble]"
    using ex_partition1 by (simp add: exLib_def)
  show ?thesis
    unfolding shatterMesh_Some[OF a b] ex_center1 by (simp add: ex_build1)
qed

theorem explosion_direction_witness:
  "shatterMesh exLib exSrc1 1 None False = Inr [exFrag]
   \<and> centroid exFrag = getCenter (computeBoundingBox (concat (map coords [exA, exA])))
   \<and> normalize (vsub (centroid exFrag)
                      (getCenter (computeBoundingBox (concat (map coords [exA, exA])))))
       = \<lparr>jx = Finite 0, jy = Finite 0, jz = Finite 0\<rparr>
   \<and> direction exFrag = Vector3 0 0 0"
proof -
  have a: "positionAttr exSrc1 = Some [exA, exA]" by (simp add: exSrc1_def)
  have m: "exFrag \<in> set [exFrag]" by simp
  have c: "centroid exFrag = getCenter (computeBoundingBox (concat (map coords [exA, exA])))"
    unfolding ex_center1 by (simp add: exFrag_def)
  note t = explosion_direction[OF a ex_shatter1 m refl]
  from t c have d: "direction exFrag = Vector3 0 0 0" by blast
  from t have "normalize (vsub (centroid exFrag)
                      (getCenter (computeBoundingBox (concat (map coords [exA, exA])))))
                 = jsVector (direction exFrag)" by blast
  then have "normalize (vsub (centroid exFrag)
                      (getCenter (computeBoundingBox (concat (map coords [exA, exA])))))
       = \<lparr>jx = Finite 0, jy = Finite 0, jz = Finite 0\<rparr>"
    by (simp add: d jsVector_def Vector3_def)
  with c d ex_shatter1 show ?thesis by blast
qed

lemma partition_bucket:
  assumes "1 \<le> n" and "partition_mesh tris n sd = Inr buckets" and "k < n"
  shows "buckets ! k = foldl pushTriangle emptyBucket
                         (filter (\<lambda>t. closestSeed (makeSeeds n sd) t = k) tris)"
  using partition_mesh_char[OF assms(1), of tris sd] assms(2,3) by auto

lemma points_emptyBucket: "points emptyBucket = []" "positions emptyBucket = []"
  by (simp_all add: emptyBucket_def)

lemma partition_bucket_shape:
  assumes "1 \<le> n" and "partition_mesh tris n sd = Inr buckets" and "k < n"
  shows "length (points (buckets ! k)) = 3 * length (bucketTriangles (buckets ! k))"
    and "positions (buckets ! k) = concat (map coords (bucketTriangles (buckets ! k)))"
  unfolding partition_bucket[OF assms]
  by (simp_all add: bucketTriangles_foldl points_foldl_push positions_foldl_push
      points_emptyBucket length_concat_triPoints)

lemma filter_cong_nth:
  assumes "\<forall>k<length bs. P (bs ! k) = Q (bs ! k)"
  shows "filter P bs = filter Q bs"
  using assms by (intro filter_cong) (auto simp: in_set_conv_nth)

text \<open>
  C10 (points are counted with multiplicity).  A returned fragment list never
  has more than \<open>fragmentCount\<close> entries.  For \<open>fragmentCount \<ge> 1\<close> every
  bucket holds three points per triangle assigned to it, a fragment is built
  for a bucket exactly when it holds at least two triangles, whatever the
  number of distinct points among them, and the result has one fragment for
  each such bucket.
\<close>

theorem fragment_iff_two_triangles:
  "(shatterMesh lib src fragmentCount vb solid = Inr frs \<longrightarrow> length frs \<le> fragmentCount)
   \<and> (1 \<le> fragmentCount \<and> positionAttr src = Some tris \<longrightarrow>
        (\<exists>buckets out.
            partition_mesh tris fragmentCount (seedAt lib) = Inr buckets
          \<and> shatterMesh lib src fragmentCount vb solid = Inr out
          \<and> (\<forall>k<fragmentCount.
                 length (points (buckets ! k)) = 3 * length (bucketTriangles (buckets ! k))
               \<and> (buildFragment lib src c vb solid k (buckets ! k) \<noteq> None)
                   = (2 \<le> length (bucketTriangles (buckets ! k))))
          \<and> length out = length (filter (\<lambda>b. 2 \<le> length (bucketTriangles b)) buckets)))"
proof (intro conjI impI)
  assume r: "shatterMesh lib src fragmentCount vb solid = Inr frs"
  show "length frs \<le> fragmentCount"
  proof (cases "positionAttr src")
    case None
    with r show ?thesis by (simp add: shatterMesh_def)
  next
    case (Some ts)
    with r obtain bs where p: "partition_mesh ts fragmentCount (seedAt lib) = Inr bs"
      and "frs = buildAll lib src (getCenter (computeBoundingBox (concat (map coords ts))))
                   vb solid 0 bs"
      by (auto simp: shatterMesh_def Let_def split: sum.splits)
    then have "length frs \<le> length bs" by (simp add: buildAll_length)
    with partition_mesh_length[OF p] show ?thesis by simp
  qed
next
  assume a: "1 \<le> fragmentCount \<and> positionAttr src = Some tris"
  then have n: "1 \<le> fragmentCount" and s: "positionAttr src = Some tris" by simp_all
  from partition_mesh_char[OF n, of tris "seedAt lib"]
  obtain buckets where p: "partition_mesh tris fragmentCount (seedAt lib) = Inr buckets" by blast
  let ?out = "buildAll lib src (getCenter (computeBoundingBox (concat (map coords tris))))
                vb solid 0 buckets"
  have len: "length buckets = fragmentCount" by (rule partition_mesh_length[OF p])
  have sh: "shatterMesh lib src fragmentCount vb solid = Inr ?out"
    by (rule shatterMesh_Some[OF s p])
  have k: "\<forall>k<fragmentCount.
                 length (points (buckets ! k)) = 3 * length (bucketTriangles (buckets ! k))
               \<and> (buildFragment lib src c vb solid k (buckets ! k) \<noteq> None)
                   = (2 \<le> length (bucketTriangles (buckets ! k)))"
  proof (intro allI impI)
    fix k assume "k < fragmentCount"
    from partition_bucket_shape(1)[OF n p this]
    show "length (points (buckets ! k)) = 3 * length (bucketTriangles (buckets ! k))
               \<and> (buildFragment lib src c vb solid k (buckets ! k) \<noteq> None)
                   = (2 \<le> length (bucketTriangles (buckets ! k)))"
      by (auto simp: buildFragment_None_iff)
  qed
  have "\<forall>k<length buckets. (4 \<le> length (points (buckets ! k)))
                              = (2 \<le> length (bucketTriangles (buckets ! k)))"
    using k len by auto
  then have "filter (\<lambda>b. 4 \<le> length (points b)) buckets
               = filter (\<lambda>b. 2 \<le> length (bucketTriangles b)) buckets"
    by (rule filter_cong_nth)
  then have "length ?out = length (filter (\<lambda>b. 2 \<le> length (bucketTriangles b)) buckets)"
    by (simp add: buildAll_length)
  with p sh k show "\<exists>buckets out.
            partition_mesh tris fragmentCount (seedAt lib) = Inr buckets
          \<and> shatterMesh lib src fragmentCount vb solid = Inr out
          \<and> (\<forall>k<fragmentCount.
                 length (points (buckets ! k)) = 3 * length (bucketTriangles (buckets ! k))
               \<and> (buildFragment lib src c vb solid k (buckets ! k) \<noteq> None)
                   = (2 \<le> length (bucketTriangles (buckets ! k))))
          \<and> length out = length (filter (\<lambda>b. 2 \<le> length (bucketTriangles b)) buckets)"
    by blast
qed

text \<open>
  C9 (hull failure).  In solid mode, for \<open>fragmentCount \<ge> 1\<close>,
  \<open>shatterMesh\<close> returns a fragment list and no error; every bucket of at
  least four points for which the hull builder throws still has its fragment
  in that list, with the bucket's own position array, that is the numbers of
  its triangles unchanged, as geometry.
\<close>

theorem hull_failure_fallback:
  assumes "1 \<le> fragmentCount" and "positionAttr src = Some tris"
  shows "\<exists>buckets frs.
            partition_mesh tris fragmentCount (seedAt lib) = Inr buckets
          \<and> shatterMesh lib src fragmentCount vb True = Inr frs
          \<and> (\<forall>k<fragmentCount.
                 4 \<le> length (points (buckets ! k))
                 \<and> ConvexGeometry lib (points (buckets ! k)) = None \<longrightarrow>
                 (\<exists>f \<in> set frs.
                     buildFragment lib src
                       (getCenter (computeBoundingBox (concat (map coords tris))))
                       vb True k (buckets ! k) = Some f
                   \<and> geometry (mesh f) = positions (buckets ! k)
                   \<and> geometry (mesh f) = concat (map coords (bucketTriangles (buckets ! k)))))"
proof -
  from partition_mesh_char[OF assms(1), of tris "seedAt lib"]
  obtain buckets where p: "partition_mesh tris fragmentCount (seedAt lib) = Inr buckets" by blast
  let ?c = "getCenter (computeBoundingBox (concat (map coords tris)))"
  let ?out = "buildAll lib src ?c vb True 0 buckets"
  have len: "length buckets = fragmentCount" by (rule partition_mesh_length[OF p])
  have sh: "shatterMesh lib src fragmentCount vb True = Inr ?out"
    by (rule shatterMesh_Some[OF assms(2) p])
  have "\<forall>k<fragmentCount.
                 4 \<le> length (points (buckets ! k))
                 \<and> ConvexGeometry lib (points (buckets ! k)) = None \<longrightarrow>
                 (\<exists>f \<in> set ?out.
                     buildFragment lib src ?c vb True k (buckets ! k) = Some f
                   \<and> geometry (mesh f) = positions (buckets ! k)
                   \<and> geometry (mesh f) = concat (map coords (bucketTriangles (buckets ! k))))"
  proof (intro allI impI)
    fix k assume k: "k < fragmentCount"
      and h: "4 \<le> length (points (buckets ! k)) \<and> ConvexGeometry lib (points (buckets ! k)) = None"
    then obtain f where f: "buildFragment lib src ?c vb True k (buckets ! k) = Some f"
      using buildFragment_None_iff[of lib src ?c vb True k "buckets ! k"] by fastforce
    have g: "geometry (mesh f) = positions (buckets ! k)"
      using buildFragment_SomeD(2)[OF f] h by (simp add: fragmentGeometry_def)
    have "f \<in> set ?out" using buildAll_mem[of k buckets lib src ?c vb True 0 f] k len f by simp
    with f g partition_bucket_shape(2)[OF assms(1) p k]
    show "\<exists>f \<in> set ?out.
                     buildFragment lib src ?c vb True k (buckets ! k) = Some f
                   \<and> geometry (mesh f) = positions (buckets ! k)
                   \<and> geometry (mesh f) = concat (map coords (bucketTriangles (buckets ! k)))"
      by auto
  qed
  with p sh show ?thesis by blast
qed

text \<open>
  C3 (drop rule), as the code has it.  A bucket whose point list, counted with
  multiplicity, has fewer than four entries yields no fragment; the loop goes
  on to the next bucket.  Such a bucket has fewer than four distinct points.
\<close>

theorem drop_rule_point_count:
  assumes "length (points frag) < 4"
  shows "buildFragment lib src c vb solid k frag = None
       \<and> buildAll lib src c vb solid k (frag # rest) = buildAll lib src c vb solid (Suc k) rest
       \<and> card (set (points frag)) < 4"
proof -
  have "buildFragment lib src c vb solid k frag = None"
    using assms by (simp add: buildFragment_None_iff)
  moreover have "card (set (points frag)) \<le> length (points frag)" by (rule card_length)
  ultimately show ?thesis using assms by simp
qed

lemma ex_points:
  "points exDouble = [Vector3 0 0 0, Vector3 3 0 0, Vector3 0 3 0, Vector3 0 0 0, Vector3 3 0 0, Vector3 0 3 0]"
  "points exSingle = [Vector3 10 0 0, Vector3 13 0 0, Vector3 10 3 0]"
  by (simp_all add: exDouble_def exSingle_def exA_def exB_def emptyBucket_def)

lemma ex_card: "card (set (points exDouble)) = 3"
  by (simp add: ex_points Vector3_def card_insert_if)

text \<open>
  C3 as stated fails: the bucket of the doubled triangle has three distinct
  points, and a fragment is returned for it.
\<close>

theorem drop_rule_distinct_counterexample:
  "partition_mesh [exA, exA] 1 exSeedAt = Inr [exDouble]
   \<and> card (set (points exDouble)) = 3
   \<and> shatterMesh exLib exSrc1 1 None False = Inr [exFrag]"
  using ex_partition1 ex_card ex_shatter1 by blast

theorem drop_rule_point_count_witness:
  "length (points exSingle) = 3
   \<and> buildFragment exLib exSrc (Vector3 0 0 0) None True 1 exSingle = None"
proof -
  have l: "length (points exSingle) = 3" by (simp add: ex_points)
  then have "length (points exSingle) < 4" by simp
  from drop_rule_point_count[OF this] l show ?thesis by blast
qed


lemma ex_bucketTriangles:
  "bucketTriangles exDouble = [exA, exA]" "bucketTriangles exSingle = [exB]"
  unfolding exDouble_def exSingle_def by (rule bucketTriangles_foldl)+

theorem fragment_iff_two_triangles_witness:
  "partition_mesh [exA, exB, exA] 2 exSeedAt = Inr [exDouble, exSingle]
   \<and> card (set (points exDouble)) = 3
   \<and> buildFragment exLib exSrc (Vector3 0 0 0) None False 0 exDouble \<noteq> None
   \<and> buildFragment exLib exSrc (Vector3 0 0 0) None False 1 exSingle = None"
proof -
  have s: "seedAt exLib = exSeedAt" by (simp add: exLib_def)
  have "(1::nat) \<le> 2 \<and> positionAttr exSrc = Some [exA, exB, exA]" by (simp add: exSrc_def)
  with fragment_iff_two_triangles[of exLib exSrc 2 None False "[]" "[exA, exB, exA]" "Vector3 0 0 0"]
  obtain buckets where "partition_mesh [exA, exB, exA] 2 (seedAt exLib) = Inr buckets"
    and k: "\<forall>k<2. (buildFragment exLib exSrc (Vector3 0 0 0) None False k (buckets ! k) \<noteq> None)
                   = (2 \<le> length (bucketTriangles (buckets ! k)))"
    by blast
  then have b: "buckets = [exDouble, exSingle]" by (simp add: s ex_partition)
  from k have "(buildFragment exLib exSrc (Vector3 0 0 0) None False 0 (buckets ! 0) \<noteq> None)
                   = (2 \<le> length (bucketTriangles (buckets ! 0)))"
    and "(buildFragment exLib exSrc (Vector3 0 0 0) None False 1 (buckets ! 1) \<noteq> None)
                   = (2 \<le> length (bucketTriangles (buckets ! 1)))"
    by simp_all
  then have "buildFragment exLib exSrc (Vector3 0 0 0) None False 0 exDouble \<noteq> None"
    and "buildFragment exLib exSrc (Vector3 0 0 0) None False 1 exSingle = None"
    by (simp_all add: b ex_bucketTriangles)
  with ex_partition ex_card show ?thesis by blast
qed

lemma ex_build1_solid:
  "buildFragment exLib exSrc1 (Vector3 (3 / 2) (3 / 2) 0) None True 0 exDouble = Some exFrag"
proof -
  have "fragmentGeometry exLib True exDouble = fragmentGeometry exLib False exDouble"
    by (simp add: fragmentGeometry_def exLib_def)
  then have "buildFragment exLib exSrc1 (Vector3 (3 / 2) (3 / 2) 0) None True 0 exDouble
      = buildFragment exLib exSrc1 (Vector3 (3 / 2) (3 / 2) 0) None False 0 exDouble"
    by (simp add: buildFragment_def)
  then show ?thesis by (simp only: ex_build1)
qed

theorem hull_failure_fallback_witness:
  "ConvexGeometry exLib (points exDouble) = None
   \<and> shatterMesh exLib exSrc1 1 None True = Inr [exFrag]
   \<and> geometry (mesh exFrag) = concat (map coords [exA, exA])"
proof -
  have s: "seedAt exLib = exSeedAt" and cg: "ConvexGeometry exLib (points exDouble) = None"
    by (simp_all add: exLib_def)
  have a: "positionAttr exSrc1 = Some [exA, exA]" by (simp add: exSrc1_def)
  have p: "partition_mesh [exA, exA] 1 (seedAt exLib) = Inr [exDouble]"
    using ex_partition1 by (simp only: s)
  have sh: "shatterMesh exLib exSrc1 1 None True = Inr [exFrag]"
    unfolding shatterMesh_Some[OF a p] ex_center1 by (simp add: ex_build1_solid)
  have l: "4 \<le> length (points exDouble)" by (simp add: ex_points)
  have "(1::nat) \<le> 1" by simp
  from hull_failure_fallback[OF this a, of exLib None]
  obtain buckets frs where "partition_mesh [exA, exA] 1 (seedAt exLib) = Inr buckets"
    and "shatterMesh exLib exSrc1 1 None True = Inr frs"
    and k: "\<forall>k<1. 4 \<le> length (points (buckets ! k))
                 \<and> ConvexGeometry exLib (points (buckets ! k)) = None \<longrightarrow>
                 (\<exists>f \<in> set frs.
                    geometry (mesh f) = concat (map coords (bucketTriangles (buckets ! k))))"
    by blast
  then have b: "buckets = [exDouble]" and f: "frs = [exFrag]" using p sh by simp_all
  from k l cg have "geometry (mesh exFrag) = concat (map coords (bucketTriangles exDouble))"
    by (simp add: b f)
  then have "geometry (mesh exFrag) = concat (map coords [exA, exA])"
    by (simp only: ex_bucketTriangles)
  with cg sh show ?thesis by blast
qed

section \<open>The interpolation law\<close>

lemma lerp_eq_lerpSpec: "lerp a b t = lerpSpec a b t"
  by (simp add: lerp_def lerpSpec_def Vector3_def algebra_simps)

lemma multiplyQuaternions_eq_hamilton: "multiplyQuaternions p q = hamilton p q"
  by (simp add: multiplyQuaternions_def hamilton_def Quaternion_def Let_def algebra_simps)

lemma setFromAxisAngle_eq: "setFromAxisAngle axis angle = rotationQuaternion axis angle"
  by (simp add: setFromAxisAngle_def rotationQuaternion_def Quaternion_def Let_def mult.commute)

lemma updateFragment_law:
  "updateFragment lib useVolume force rotForce f =
     f\<lparr>mesh := (mesh f)\<lparr>position := posedPosition useVolume force f,
                          quaternion := posedRotation lib force rotForce f\<rparr>\<rparr>"
  by (simp add: updateFragment_def posedPosition_def posedRotation_def Let_def
      lerp_eq_lerpSpec multiplyQuaternions_eq_hamilton setFromAxisAngle_eq
      explosionScale_def spinScale_def)

text \<open>
  C4 (interpolation law).  \<open>updateTransformations\<close> sets, for every fragment,
  the position to the linear interpolation from \<open>originalPosition\<close> to
  \<open>targetVolumePosition\<close> at \<open>force\<close> when \<open>useVolume\<close> is set and to
  \<open>originalPosition + direction * force * 12\<close> otherwise, and the quaternion
  to the product of the rotation about \<open>rotationAxis\<close> by
  \<open>force * 15 * rotForce\<close> with the quaternion of \<open>originalRotation\<close>.
\<close>

theorem interpolation_law:
  "updateTransformations lib useVolume force rotForce frags =
     map (\<lambda>f. f\<lparr>mesh := (mesh f)\<lparr>position := posedPosition useVolume force f,
                                   quaternion := posedRotation lib force rotForce f\<rparr>\<rparr>) frags
   \<and> posedPosition True force f = lerpSpec (originalPosition f) (targetVolumePosition f) force
   \<and> posedPosition False force f =
       vadd (originalPosition f) (multiplyScalar (direction f) (force * explosionScale))
   \<and> posedRotation lib force rotForce f =
       hamilton (rotationQuaternion (rotationAxis f) (force * spinScale * rotForce))
                (setFromEuler lib (originalRotation f))
   \<and> explosionScale = 12 \<and> spinScale = 15"
  by (simp add: updateTransformations_def updateFragment_law posedPosition_def
      posedRotation_def explosionScale_def spinScale_def)

text \<open>
  C5 (rest pose).  At \<open>force = 0\<close>, in both modes and for every \<open>rotForce\<close>,
  each fragment is put at its \<open>originalPosition\<close> with the quaternion of its
  \<open>originalRotation\<close>; the spin quaternion is the identity.
\<close>

theorem rest_pose:
  "updateTransformations lib useVolume 0 rotForce frags =
     map (\<lambda>f. f\<lparr>mesh := (mesh f)\<lparr>position := originalPosition f,
                                   quaternion := setFromEuler lib (originalRotation f)\<rparr>\<rparr>) frags
   \<and> setFromAxisAngle (rotationAxis f) (0 * 15 * rotForce) = Quaternion 0 0 0 1"
proof -
  have "posedPosition useVolume 0 g = originalPosition g" for g
    by (simp add: posedPosition_def lerpSpec_def vadd_def multiplyScalar_def Vector3_def)
  moreover have "posedRotation lib 0 rotForce g = setFromEuler lib (originalRotation g)" for g
    by (simp add: posedRotation_def rotationQuaternion_def hamilton_def Quaternion_def)
  moreover have "setFromAxisAngle (rotationAxis f) (0 * 15 * rotForce) = Quaternion 0 0 0 1"
    by (simp add: setFromAxisAngle_def Quaternion_def)
  ultimately show ?thesis
    by (simp add: updateTransformations_def updateFragment_law)
qed


text \<open>
  Half way out the example fragment is at \<open>(7, 2, 3)\<close> in direction mode
  and at \<open>(2, 2, 3)\<close> in volume mode; without spin it keeps the quaternion
  of its rest rotation.
\<close>

lemma ex_update:
  "map (\<lambda>f. position (mesh f)) (updateTransformations exLib False (1 / 2) 0 [exMoving])
     = [Vector3 7 2 3]"
  "map (\<lambda>f. position (mesh f)) (updateTransformations exLib True (1 / 2) 0 [exMoving])
     = [Vector3 2 2 3]"
  "map (\<lambda>f. quaternion (mesh f)) (updateTransformations exLib True (1 / 2) 0 [exMoving])
     = [Quaternion 0 0 0 1]"
  by (simp_all add: updateTransformations_def updateFragment_def exMoving_def exFrag_def
      exLib_def lerp_def vadd_def multiplyScalar_def setFromAxisAngle_def
      multiplyQuaternions_def Quaternion_def Vector3_def Let_def)

section \<open>Projected boxes\<close>

lemma foldl_scanCorner:
  "cs \<noteq> [] \<Longrightarrow>
   foldl (scanCorner p) (a, b, c, d) cs =
     (min a (Min (set (map (\<lambda>c. vx (p c)) cs))), min b (Min (set (map (\<lambda>c. vy (p c)) cs))),
      max c (Max (set (map (\<lambda>c. vx (p c)) cs))), max d (Max (set (map (\<lambda>c. vy (p c)) cs))))"
proof (induction cs arbitrary: a b c d)
  case Nil
  then show ?case by simp
next
  case (Cons x cs)
  show ?case
  proof (cases "cs = []")
    case True
    then show ?thesis by (simp add: scanCorner_def Let_def)
  next
    case False
    from Cons.IH[OF False]
    show ?thesis using False
      by (simp add: scanCorner_def Let_def min.assoc max.assoc)
  qed
qed

lemma corners_nonempty: "corners box \<noteq> []"
  by (simp add: corners_def)

lemma cornerBounds_rect:
  "cornerBounds p box =
     (min 1 (rectMinX p box), min 1 (rectMinY p box),
      max (-1) (rectMaxX p box), max (-1) (rectMaxY p box))"
  unfolding cornerBounds_def rectMinX_def rectMinY_def rectMaxX_def rectMaxY_def
    ndcXs_def ndcYs_def
  by (rule foldl_scanCorner[OF corners_nonempty])

lemma Min_le_Max_list:
  fixes xs :: "real list"
  assumes "xs \<noteq> []"
  shows "Min (set xs) \<le> Max (set xs)"
proof -
  have "finite (set xs)" and "set xs \<noteq> {}" using assms by simp_all
  then have "Min (set xs) \<in> set xs" by (rule Min_in)
  then show ?thesis by (rule Max_ge[OF \<open>finite (set xs)\<close>])
qed

lemma rect_ordered:
  "rectMinX p box \<le> rectMaxX p box" "rectMinY p box \<le> rectMaxY p box"
proof -
  have "ndcXs p box \<noteq> []" "ndcYs p box \<noteq> []"
    by (simp_all add: ndcXs_def ndcYs_def corners_nonempty)
  then show "rectMinX p box \<le> rectMaxX p box" "rectMinY p box \<le> rectMaxY p box"
    unfolding rectMinX_def rectMaxX_def rectMinY_def rectMaxY_def
    by (simp_all add: Min_le_Max_list)
qed

lemma datasetAnnotation_None_iff:
  "(datasetAnnotation p box = None) =
     (rectMaxX p box \<le> -1 \<or> 1 \<le> rectMinX p box \<or> rectMaxY p box \<le> -1 \<or> 1 \<le> rectMinY p box)"
  by (auto simp: datasetAnnotation_def cornerBounds_rect Let_def)

lemma datasetAnnotation_Some:
  assumes "datasetAnnotation p box \<noteq> None"
  shows "datasetAnnotation p box = Some (clippedRecord p box)"
proof -
  from assms have v: "-1 < rectMaxX p box" "rectMinX p box < 1"
    "-1 < rectMaxY p box" "rectMinY p box < 1"
    by (auto simp: datasetAnnotation_None_iff)
  then show ?thesis
    by (simp add: datasetAnnotation_def cornerBounds_rect Let_def clippedRecord_def
        clipLo_def clipHi_def min_def max_def field_simps)
qed

lemma clippedRecord_bounds:
  assumes "clippedRecord p box = (cx, cy, w, h)"
    and "-1 < rectMaxX p box" "rectMinX p box < 1" "-1 < rectMaxY p box" "rectMinY p box < 1"
  shows "0 \<le> cx \<and> cx \<le> 1 \<and> 0 \<le> cy \<and> cy \<le> 1 \<and> 0 \<le> w \<and> w \<le> 1 \<and> 0 \<le> h \<and> h \<le> 1
       \<and> 0 \<le> cx - w / 2 \<and> cx + w / 2 \<le> 1 \<and> 0 \<le> cy - h / 2 \<and> cy + h / 2 \<le> 1"
proof -
  let ?l = "clipLo (rectMinX p box)" and ?r = "clipHi (rectMaxX p box)"
  let ?t = "1 - clipHi (rectMaxY p box)" and ?b = "1 - clipLo (rectMinY p box)"
  have x: "0 \<le> ?l" "?l \<le> ?r" "?r \<le> 1"
    using assms(2,3) rect_ordered(1)[of p box] by (auto simp: clipLo_def clipHi_def min_def max_def)
  have y: "0 \<le> ?t" "?t \<le> ?b" "?b \<le> 1"
    using assms(4,5) rect_ordered(2)[of p box] by (auto simp: clipLo_def clipHi_def min_def max_def)
  have "cx = (?l + ?r) / 2" "cy = (?t + ?b) / 2" "w = ?r - ?l" "h = ?b - ?t"
    using assms(1) by (simp_all add: clippedRecord_def Let_def)
  with x y show ?thesis by (simp add: field_simps)
qed

text \<open>
  C6 (projection clip law).  When the rectangle of the eight projected corners
  lies beyond \<open>[-1, 1]\<close> on either axis no annotation is produced; none is
  produced exactly when the rectangle does not reach into the open range on
  some axis.  A produced annotation is the record of the rectangle clipped to
  \<open>[-1, 1]\<close>, and its four numbers lie in \<open>[0, 1]\<close>, with the box
  \<open>cx \<plusminus> w / 2\<close>, \<open>cy \<plusminus> h / 2\<close> inside the image.
\<close>

theorem projection_clip_law:
  "(rectMaxX p box < -1 \<or> 1 < rectMinX p box \<or> rectMaxY p box < -1 \<or> 1 < rectMinY p box
      \<longrightarrow> datasetAnnotation p box = None)
   \<and> (datasetAnnotation p box = None) =
       (rectMaxX p box \<le> -1 \<or> 1 \<le> rectMinX p box \<or> rectMaxY p box \<le> -1 \<or> 1 \<le> rectMinY p box)
   \<and> (datasetAnnotation p box \<noteq> None \<longrightarrow> datasetAnnotation p box = Some (clippedRecord p box))
   \<and> (datasetAnnotation p box = Some (cx, cy, w, h) \<longrightarrow>
         0 \<le> cx \<and> cx \<le> 1 \<and> 0 \<le> cy \<and> cy \<le> 1 \<and> 0 \<le> w \<and> w \<le> 1 \<and> 0 \<le> h \<and> h \<le> 1
       \<and> 0 \<le> cx - w / 2 \<and> cx + w / 2 \<le> 1 \<and> 0 \<le> cy - h / 2 \<and> cy + h / 2 \<le> 1)"
proof (intro conjI impI)
  assume "rectMaxX p box < -1 \<or> 1 < rectMinX p box \<or> rectMaxY p box < -1 \<or> 1 < rectMinY p box"
  then show "datasetAnnotation p box = None"
    by (auto simp: datasetAnnotation_None_iff)
next
  show "(datasetAnnotation p box = None) =
       (rectMaxX p box \<le> -1 \<or> 1 \<le> rectMinX p box \<or> rectMaxY p box \<le> -1 \<or> 1 \<le> rectMinY p box)"
    by (rule datasetAnnotation_None_iff)
next
  assume "datasetAnnotation p box \<noteq> None"
  then show "datasetAnnotation p box = Some (clippedRecord p box)"
    by (rule datasetAnnotation_Some)
next
  assume s: "datasetAnnotation p box = Some (cx, cy, w, h)"
  then have n: "datasetAnnotation p box \<noteq> None" by simp
  then have c: "clippedRecord p box = (cx, cy, w, h)"
    using datasetAnnotation_Some[OF n] s by simp
  from n have v: "-1 < rectMaxX p box" "rectMinX p box < 1"
    "-1 < rectMaxY p box" "rectMinY p box < 1"
    by (auto simp: datasetAnnotation_None_iff)
  from clippedRecord_bounds[OF c v]
  show "0 \<le> cx" "cx \<le> 1" "0 \<le> cy" "cy \<le> 1" "0 \<le> w" "w \<le> 1" "0 \<le> h" "h \<le> 1"
    "0 \<le> cx - w / 2" "cx + w / 2 \<le> 1" "0 \<le> cy - h / 2" "cy + h / 2 \<le> 1"
    by simp_all
qed

lemma ex_rect:
  "rectMinX pinhole exBox = - (3 / 2)" "rectMaxX pinhole exBox = 1 / 2"
  "rectMinY pinhole exBox = - (1 / 2)" "rectMaxY pinhole exBox = 1 / 2"
  by (simp_all add: rectMinX_def rectMaxX_def rectMinY_def rectMaxY_def ndcXs_def ndcYs_def
      corners_def pinhole_def exBox_def Vector3_def)

lemma ex_rect_out:
  "rectMinX pinhole exBoxOut = 5 / 3"
  by (simp_all add: rectMinX_def rectMaxX_def rectMinY_def rectMaxY_def ndcXs_def ndcYs_def
      corners_def pinhole_def exBoxOut_def Vector3_def)

lemma ex_rect_far:
  "rectMinX pinhole exBoxFar = 0" "rectMaxX pinhole exBoxFar = 5"
  "rectMinY pinhole exBoxFar = - (1 / 2)" "rectMaxY pinhole exBoxFar = 1 / 2"
  by (simp_all add: rectMinX_def rectMaxX_def rectMinY_def rectMaxY_def ndcXs_def ndcYs_def
      corners_def pinhole_def exBoxFar_def Vector3_def)

lemma ex_annotation: "datasetAnnotation pinhole exBox = Some (3 / 8, 1 / 2, 3 / 4, 1 / 2)"
  by (simp add: datasetAnnotation_def cornerBounds_rect ex_rect Let_def)


theorem projection_clip_law_witness:
  "1 < rectMinX pinhole exBoxOut \<and> datasetAnnotation pinhole exBoxOut = None
   \<and> datasetAnnotation pinhole exBox = Some (3 / 8, 1 / 2, 3 / 4, 1 / 2)
   \<and> datasetAnnotation pinhole exBox = Some (clippedRecord pinhole exBox)
   \<and> (0::real) \<le> 3 / 8 - (3 / 4) / 2 \<and> (3 / 8 :: real) + (3 / 4) / 2 \<le> 1"
proof -
  have out: "1 < rectMinX pinhole exBoxOut" by (simp add: ex_rect_out)
  with projection_clip_law[of pinhole exBoxOut]
  have "datasetAnnotation pinhole exBoxOut = None" by blast
  moreover from projection_clip_law[of pinhole exBox "3 / 8" "1 / 2" "3 / 4" "1 / 2"] ex_annotation
  have "datasetAnnotation pinhole exBox = Some (clippedRecord pinhole exBox)"
    and "(0::real) \<le> 3 / 8 - (3 / 4) / 2 \<and> (3 / 8 :: real) + (3 / 4) / 2 \<le> 1"
    by simp_all
  ultimately show ?thesis using out ex_annotation by blast
qed

subsection \<open>The per-frame boxes\<close>

lemma pixel_gate:
  fixes width height :: real
  assumes "0 < width" and "0 < height"
  shows "((maxX + 1) / 2 * width > 0 \<and> (minX + 1) / 2 * width < width
          \<and> (1 - minY) / 2 * height > 0 \<and> (1 - maxY) / 2 * height < height)
         = (maxX > -1 \<and> minX < 1 \<and> minY < 1 \<and> maxY > -1)"
proof -
  have a: "(0 < (maxX + 1) / 2 * width) = (-1 < maxX)"
    using assms(1) by (auto simp: zero_less_mult_iff)
  have b: "((minX + 1) / 2 * width < width) = (minX < 1)"
    using assms(1) mult_less_cancel_right_pos[of width "(minX + 1) / 2" 1] by simp
  have c: "(0 < (1 - minY) / 2 * height) = (minY < 1)"
    using assms(2) by (auto simp: zero_less_mult_iff)
  have d: "((1 - maxY) / 2 * height < height) = (-1 < maxY)"
    using assms(2) mult_less_cancel_right_pos[of height "(1 - maxY) / 2" 1] by simp
  show ?thesis unfolding a b c d by blast
qed

lemma fragmentBox2D_Some_iff:
  assumes "0 < width" and "0 < height"
  shows "(fragmentBox2D p width height box \<noteq> None) =
           (\<bar>vx (p (getCenter (Some box)))\<bar> \<le> 12 / 10 \<and> \<bar>vy (p (getCenter (Some box)))\<bar> \<le> 12 / 10
            \<and> -1 < rectMaxX p box \<and> rectMinX p box < 1
            \<and> -1 < rectMaxY p box \<and> rectMinY p box < 1)"
proof -
  let ?g = "\<bar>vx (p (getCenter (Some box)))\<bar> > 12 / 10 \<or> \<bar>vy (p (getCenter (Some box)))\<bar> > 12 / 10"
  let ?v = "max (-1) (rectMaxX p box) > -1 \<and> min 1 (rectMinX p box) < 1
            \<and> min 1 (rectMinY p box) < 1 \<and> max (-1) (rectMaxY p box) > -1"
  have "(fragmentBox2D p width height box \<noteq> None) = (\<not> ?g \<and> ?v)"
    unfolding fragmentBox2D_def Let_def cornerBounds_rect prod.case pixel_gate[OF assms]
    by (cases ?g; cases ?v) simp_all
  also have "\<dots> = (\<bar>vx (p (getCenter (Some box)))\<bar> \<le> 12 / 10 \<and> \<bar>vy (p (getCenter (Some box)))\<bar> \<le> 12 / 10
            \<and> -1 < rectMaxX p box \<and> rectMinX p box < 1
            \<and> -1 < rectMaxY p box \<and> rectMinY p box < 1)"
    by (auto simp: not_less)
  finally show ?thesis .
qed

text \<open>
  C7 (per-frame boxes), as the code has it.  For a window of positive width
  and height, \<open>calculate2DBboxes\<close> produces a box for a fragment exactly when
  the centre of its world box projects to within \<open>1.2\<close> of the origin on both
  axes and the rectangle of its projected corners reaches into the open range
  \<open>(-1, 1)\<close> on both axes; the box is that rectangle, not clipped, scaled to
  pixels.
\<close>

theorem overlay_box_law:
  assumes "0 < width" and "0 < height"
  shows "(fragmentBox2D p width height box \<noteq> None) =
           (\<bar>vx (p (getCenter (Some box)))\<bar> \<le> 12 / 10 \<and> \<bar>vy (p (getCenter (Some box)))\<bar> \<le> 12 / 10
            \<and> -1 < rectMaxX p box \<and> rectMinX p box < 1
            \<and> -1 < rectMaxY p box \<and> rectMinY p box < 1)
       \<and> (fragmentBox2D p width height box \<noteq> None \<longrightarrow>
            fragmentBox2D p width height box =
              Some \<lparr>box_left = (rectMinX p box + 1) / 2 * width,
                    box_top = (1 - rectMaxY p box) / 2 * height,
                    box_width = (rectMaxX p box + 1) / 2 * width - (rectMinX p box + 1) / 2 * width,
                    box_height = (1 - rectMinY p box) / 2 * height - (1 - rectMaxY p box) / 2 * height\<rparr>)"
proof (intro conjI impI)
  show "(fragmentBox2D p width height box \<noteq> None) =
           (\<bar>vx (p (getCenter (Some box)))\<bar> \<le> 12 / 10 \<and> \<bar>vy (p (getCenter (Some box)))\<bar> \<le> 12 / 10
            \<and> -1 < rectMaxX p box \<and> rectMinX p box < 1
            \<and> -1 < rectMaxY p box \<and> rectMinY p box < 1)"
    by (rule fragmentBox2D_Some_iff[OF assms])
next
  assume n: "fragmentBox2D p width height box \<noteq> None"
  with fragmentBox2D_Some_iff[OF assms, of p box]
  have v: "-1 < rectMaxX p box" "rectMinX p box < 1" "-1 < rectMaxY p box" "rectMinY p box < 1"
    by blast+
  then have m: "min 1 (rectMinX p box) = rectMinX p box" "max (-1) (rectMaxX p box) = rectMaxX p box"
    "min 1 (rectMinY p box) = rectMinY p box" "max (-1) (rectMaxY p box) = rectMaxY p box"
    by simp_all
  from n show "fragmentBox2D p width height box =
              Some \<lparr>box_left = (rectMinX p box + 1) / 2 * width,
                    box_top = (1 - rectMaxY p box) / 2 * height,
                    box_width = (rectMaxX p box + 1) / 2 * width - (rectMinX p box + 1) / 2 * width,
                    box_height = (1 - rectMinY p box) / 2 * height - (1 - rectMaxY p box) / 2 * height\<rparr>"
    by (simp add: fragmentBox2D_def cornerBounds_rect Let_def m split: if_splits)
qed

lemma ex_center: "getCenter (Some exBox) = Vector3 (-1) 0 (- (5 / 2))"
  "getCenter (Some exBoxFar) = Vector3 5 0 (- (5 / 2))"
  by (simp_all add: getCenter_def exBox_def exBoxFar_def vadd_def multiplyScalar_def Vector3_def)

lemma ex_box2D:
  "fragmentBox2D pinhole 1000 800 exBox =
     Some \<lparr>box_left = -250, box_top = 200, box_width = 1000, box_height = 400\<rparr>"
  by (simp add: fragmentBox2D_def cornerBounds_rect ex_rect ex_center Let_def pinhole_def Vector3_def)

lemma ex_box2D_far: "fragmentBox2D pinhole 1000 800 exBoxFar = None"
  by (simp add: fragmentBox2D_def ex_center Let_def pinhole_def Vector3_def)

text \<open>
  C7 as stated fails: the wide box has the part \<open>0 \<le> x \<le> 1\<close> of its
  rectangle in view and gets no box, its centre projecting to \<open>x = 2\<close>; and
  the box straddling the left edge gets a box that starts 250 pixels left of
  the window.
\<close>

theorem overlay_box_counterexample:
  "rectMinX pinhole exBoxFar = 0 \<and> rectMaxX pinhole exBoxFar = 5
   \<and> rectMinY pinhole exBoxFar = - (1 / 2) \<and> rectMaxY pinhole exBoxFar = 1 / 2
   \<and> fragmentBox2D pinhole 1000 800 exBoxFar = None
   \<and> rectMinX pinhole exBox = - (3 / 2)
   \<and> fragmentBox2D pinhole 1000 800 exBox =
       Some \<lparr>box_left = -250, box_top = 200, box_width = 1000, box_height = 400\<rparr>"
  using ex_rect_far ex_box2D_far ex_rect(1) ex_box2D by blast

theorem overlay_box_law_witness:
  "fragmentBox2D pinhole 1000 800 exBox \<noteq> None
   \<and> fragmentBox2D pinhole 1000 800 exBox =
       Some \<lparr>box_left = (- (3 / 2) + 1) / 2 * 1000, box_top = (1 - 1 / 2) / 2 * 800,
             box_width = (1 / 2 + 1) / 2 * 1000 - (- (3 / 2) + 1) / 2 * 1000,
             box_height = (1 - - (1 / 2)) / 2 * 800 - (1 - 1 / 2) / 2 * 800\<rparr>"
proof -
  have w: "(0::real) < 1000" and h: "(0::real) < 800" by simp_all
  have g: "\<bar>vx (pinhole (getCenter (Some exBox)))\<bar> \<le> 12 / 10 \<and> \<bar>vy (pinhole (getCenter (Some exBox)))\<bar> \<le> 12 / 10
            \<and> -1 < rectMaxX pinhole exBox \<and> rectMinX pinhole exBox < 1
            \<and> -1 < rectMaxY pinhole exBox \<and> rectMinY pinhole exBox < 1"
    by (simp add: ex_center ex_rect pinhole_def Vector3_def)
  from overlay_box_law[OF w h, of pinhole exBox] g
  have n: "fragmentBox2D pinhole 1000 800 exBox \<noteq> None" by blast
  with overlay_box_law[OF w h, of pinhole exBox]
  have "fragmentBox2D pinhole 1000 800 exBox =
              Some \<lparr>box_left = (rectMinX pinhole exBox + 1) / 2 * 1000,
                    box_top = (1 - rectMaxY pinhole exBox) / 2 * 800,
                    box_width = (rectMaxX pinhole exBox + 1) / 2 * 1000 - (rectMinX pinhole exBox + 1) / 2 * 1000,
                    box_height = (1 - rectMinY pinhole exBox) / 2 * 800 - (1 - rectMaxY pinhole exBox) / 2 * 800\<rparr>"
    by blast
  then have "fragmentBox2D pinhole 1000 800 exBox =
       Some \<lparr>box_left = (- (3 / 2) + 1) / 2 * 1000, box_top = (1 - 1 / 2) / 2 * 800,
             box_width = (1 / 2 + 1) / 2 * 1000 - (- (3 / 2) + 1) / 2 * 1000,
             box_height = (1 - - (1 / 2)) / 2 * 800 - (1 - 1 / 2) / 2 * 800\<rparr>"
    by (simp only: ex_rect)
  with n show ?thesis by blast
qed

end
